theory Spec2Isabelle
  imports Complex_Main
begin

chapter \<open>The server interface of the Electrum client (electrum/interface.py)\<close>

section \<open>Values and exceptions\<close>

text \<open>
  Bytes and Python strings are lists of characters. A value decoded from a JSON-RPC
  message is a \<open>json\<close>; dictionaries keep their items as an association list (the first
  binding of a key is the one a lookup sees). The type \<open>'f\<close> stands for Python's floats:
  the interface only compares and scales them, through the operations of \<open>float_ops\<close>.
\<close>

type_synonym bytes = "char list"

datatype 'f json =
    JNull
  | JBool bool
  | JInt int
  | JFloat 'f
  | JStr string
  | JList "'f json list"
  | JDict "(string \<times> 'f json) list"

text \<open>
  The exceptions the interface raises or lets through. \<open>PyException\<close> is a plain
  \<open>Exception\<close>; \<open>ProtocolError\<close> and \<open>RPCError\<close> are aiorpcx's two subclasses of
  \<open>CodeMessageError\<close>, carrying a code and a message; \<open>OtherError\<close> is any other
  exception of the network layer (a cancellation, a lost connection).
\<close>

datatype error =
    RequestCorrupted
  | AssertionError
  | PyException
  | ValueError
  | TypeError
  | AttributeError
  | KeyError
  | OverflowError
  | RequestTimedOut
  | ProtocolError int string
  | RPCError int string
  | OtherError string

section \<open>NotificationSession\<close>

text \<open>
  Queues are compared by identity, so a queue is its identifier. \<open>subscriptions\<close> is the
  \<open>defaultdict(list)\<close> in insertion order, \<open>cache\<close> the dictionary of last results.
\<close>

type_synonym queue = nat

record 'f session =
  subscriptions :: "(string \<times> queue list) list"
  cache :: "(string \<times> 'f json) list"
  msg_counter :: nat

text \<open>\<open>list.remove(x)\<close>: drops the first occurrence, raises \<open>ValueError\<close> when there is none.\<close>

fun list_remove :: "'a \<Rightarrow> 'a list \<Rightarrow> error + 'a list" where
  "list_remove x [] = Inl ValueError"
| "list_remove x (y # ys) =
     (if y = x then Inr ys
      else (case list_remove x ys of Inl e \<Rightarrow> Inl e | Inr r \<Rightarrow> Inr (y # r)))"

text \<open>
  The loop \<open>for v in self.subscriptions.values(): if queue in v: v.remove(queue)\<close>, over
  the items of the dictionary in order.
\<close>

fun unsubscribe_values :: "queue \<Rightarrow> (string \<times> queue list) list \<Rightarrow> error + (string \<times> queue list) list" where
  "unsubscribe_values q [] = Inr []"
| "unsubscribe_values q ((k, v) # rest) =
     (if q \<in> set v
      then (case list_remove q v of
              Inl e \<Rightarrow> Inl e
            | Inr v' \<Rightarrow> (case unsubscribe_values q rest of
                          Inl e \<Rightarrow> Inl e
                        | Inr rest' \<Rightarrow> Inr ((k, v') # rest')))
      else (case unsubscribe_values q rest of
              Inl e \<Rightarrow> Inl e
            | Inr rest' \<Rightarrow> Inr ((k, v) # rest')))"

definition unsubscribe :: "queue \<Rightarrow> 'f session \<Rightarrow> error + 'f session" where
  "unsubscribe q s =
     (case unsubscribe_values q (subscriptions s) of
        Inl e \<Rightarrow> Inl e
      | Inr subs \<Rightarrow> Inr (s\<lparr>subscriptions := subs\<rparr>))"

section \<open>ServerAddr: equality and hashing\<close>

text \<open>
  The four attributes \<open>__init__\<close> sets. Equality and the hash read the first three only.
\<close>

record server_addr =
  host :: string
  port :: int
  protocol :: string
  net_addr_str :: string

text \<open>What \<open>__eq__\<close> may be handed: another \<open>ServerAddr\<close>, or a value of any other type.\<close>

datatype 'f py_obj = ServerAddrObj server_addr | OtherObj "'f json"

definition server_addr_eq :: "server_addr \<Rightarrow> 'f py_obj \<Rightarrow> bool" where
  "server_addr_eq self other =
     (case other of
        OtherObj _ \<Rightarrow> False
      | ServerAddrObj b \<Rightarrow> host self = host b \<and> port self = port b \<and> protocol self = protocol b)"

definition server_addr_ne :: "server_addr \<Rightarrow> 'f py_obj \<Rightarrow> bool" where
  "server_addr_ne self other = (\<not> server_addr_eq self other)"

text \<open>
  \<open>__hash__\<close> is Python's hash of the tuple \<open>(host, port, protocol)\<close>; the builtin hash is
  the parameter \<open>py_hash\<close>.
\<close>

definition server_addr_hash :: "(string \<times> int \<times> string \<Rightarrow> int) \<Rightarrow> server_addr \<Rightarrow> int" where
  "server_addr_hash py_hash self = py_hash (host self, port self, protocol self)"

section \<open>PaddedRSTransport\<close>

definition MIN_PACKET_SIZE :: int where
  "MIN_PACKET_SIZE = 1024"

definition WAIT_FOR_BUFFER_GROWTH_SECONDS :: real where
  "WAIT_FOR_BUFFER_GROWTH_SECONDS = 1"

text \<open>\<open>int.bit_length()\<close> of a non-negative integer: the number of its binary digits.\<close>

fun bit_length :: "nat \<Rightarrow> nat" where
  "bit_length n = (if n = 0 then 0 else Suc (bit_length (n div 2)))"

declare bit_length.simps [simp del]

text \<open>
  Python's slices: a negative index counts from the end, and both ends are clipped to
  the sequence. \<open>py_slice xs i j\<close> is \<open>xs[i:j]\<close>, \<open>py_slice_from xs i\<close> is \<open>xs[i:]\<close> and
  \<open>py_slice_to xs j\<close> is \<open>xs[:j]\<close>.
\<close>

definition norm_index :: "nat \<Rightarrow> int \<Rightarrow> nat" where
  "norm_index n i = (if i < 0 then nat (max 0 (int n + i)) else min (nat i) n)"

definition py_slice :: "'a list \<Rightarrow> int \<Rightarrow> int \<Rightarrow> 'a list" where
  "py_slice xs i j =
     (let a = norm_index (length xs) i; b = norm_index (length xs) j
      in take (b - a) (drop a xs))"

definition py_slice_from :: "'a list \<Rightarrow> int \<Rightarrow> 'a list" where
  "py_slice_from xs i = drop (norm_index (length xs) i) xs"

definition py_slice_to :: "'a list \<Rightarrow> int \<Rightarrow> 'a list" where
  "py_slice_to xs j = take (norm_index (length xs) j) xs"

text \<open>
  \<open>buf.rfind(c, 0, end)\<close> for a single byte \<open>c\<close> and \<open>end \<ge> 0\<close>: the highest index below
  \<open>end\<close> (and inside the buffer) that holds \<open>c\<close>, or \<open>-1\<close>.
\<close>

primrec rfind_below :: "bytes \<Rightarrow> char \<Rightarrow> nat \<Rightarrow> int" where
  "rfind_below buf c 0 = - 1"
| "rfind_below buf c (Suc i) = (if buf ! i = c then int i else rfind_below buf c i)"

definition rfind :: "bytes \<Rightarrow> char \<Rightarrow> int \<Rightarrow> int" where
  "rfind buf c end_pos = rfind_below buf c (min (nat end_pos) (length buf))"

definition newline :: char where
  "newline = CHR 0x0A"

text \<open>The test \<open>t in (b"}\n", b"]\n")\<close>.\<close>

definition is_json_rpc_terminator :: "bytes \<Rightarrow> bool" where
  "is_json_rpc_terminator t = (t = [CHR ''}'', newline] \<or> t = [CHR '']'', newline])"

text \<open>
  The state of a transport: the send buffer, the time of the last send, the two flags
  \<open>_can_send.is_set()\<close> and \<open>is_closing()\<close> of the base class, the event
  \<open>_sbuffer_has_data_evt\<close>, and the packets handed to \<open>_asyncio_transport.write\<close> so far
  (oldest first).
\<close>

record transport =
  sbuffer :: bytes
  last_send :: real
  force_send :: bool
  can_send :: bool
  is_closing :: bool
  sbuffer_has_data_evt :: bool
  written :: "bytes list"

text \<open>The sizes of option (1), the packet that takes the whole buffer, and of option (2).\<close>

definition total_lsize_of :: "nat \<Rightarrow> int" where
  "total_lsize_of payload_lsize = max MIN_PACKET_SIZE (2 ^ bit_length payload_lsize)"

definition npad_lsize_of :: "nat \<Rightarrow> int" where
  "npad_lsize_of payload_lsize = total_lsize_of payload_lsize - int payload_lsize"

definition total_ssize_of :: "nat \<Rightarrow> int" where
  "total_ssize_of payload_lsize = max MIN_PACKET_SIZE (total_lsize_of payload_lsize div 2)"

text \<open>
  \<open>_maybe_consume_sbuffer\<close>, in three parts. \<open>choose_packet\<close> is the choice between the
  two options: it returns \<open>(npad, p_idx)\<close>; \<open>npad_ssize\<close> is \<open>None\<close> for \<open>float("inf")\<close>.
\<close>

definition choose_packet :: "bool \<Rightarrow> bytes \<Rightarrow> int \<times> int" where
  "choose_packet force buf =
     (let payload_lsize = length buf;
          npad_lsize = npad_lsize_of payload_lsize;
          total_ssize = total_ssize_of payload_lsize;
          found = rfind buf newline total_ssize;
          payload_ssize = (if found \<noteq> - 1 then found + 1 else found);
          npad_ssize = (if found \<noteq> - 1 then Some (total_ssize - payload_ssize) else None)
      in if force \<or> (case npad_ssize of None \<Rightarrow> True | Some s \<Rightarrow> npad_lsize \<le> s)
         then (npad_lsize, int payload_lsize)
         else (the npad_ssize, payload_ssize))"

text \<open>
  \<open>write_packet\<close> is the end of the method: the terminator is checked, the padded
  packet is written, the time of the write (\<open>now'\<close>) is kept, the bytes sent leave the
  buffer. A failed \<open>assert\<close> is \<open>Inl AssertionError\<close>.
\<close>

definition write_packet :: "real \<Rightarrow> transport \<Rightarrow> int \<Rightarrow> int \<Rightarrow> error + transport" where
  "write_packet now' t npad p_idx =
     (let buf = sbuffer t;
          json_rpc_terminator = py_slice buf (p_idx - 2) p_idx
      in if \<not> is_json_rpc_terminator json_rpc_terminator then Inl AssertionError
         else
           let buf2 = py_slice_to buf (p_idx - 2) @ replicate (nat npad) CHR '' '' @ json_rpc_terminator;
               rest = py_slice_from buf p_idx
           in Inr (t\<lparr>written := written t @ [buf2],
                     last_send := now',
                     sbuffer := rest,
                     sbuffer_has_data_evt := (if rest = [] then False else sbuffer_has_data_evt t)\<rparr>))"

text \<open>
  The method itself: \<open>now\<close> is what \<open>time.monotonic()\<close> returns in the test whether to
  send.
\<close>

definition maybe_consume_sbuffer :: "real \<Rightarrow> real \<Rightarrow> transport \<Rightarrow> error + transport" where
  "maybe_consume_sbuffer now now' t =
     (if \<not> can_send t \<or> is_closing t then Inr t
      else if sbuffer t = [] then Inr t
      else if \<not> (force_send t
                  \<or> int (length (sbuffer t)) \<ge> MIN_PACKET_SIZE
                  \<or> last_send t + WAIT_FOR_BUFFER_GROWTH_SECONDS < now)
      then Inr t
      else if \<not> is_json_rpc_terminator (py_slice_from (sbuffer t) (- 2)) then Inl AssertionError
      else (case choose_packet (force_send t) (sbuffer t) of
              (npad, p_idx) \<Rightarrow> write_packet now' t npad p_idx))"

text \<open>
  The least power of two that is at least \<open>n\<close>, as the specification words
  \<open>next_pow2\<close>; the code does not use it.
\<close>

definition is_pow2 :: "int \<Rightarrow> bool" where
  "is_pow2 p = (\<exists>k::nat. p = 2 ^ k)"

definition next_pow2 :: "int \<Rightarrow> int" where
  "next_pow2 n = (LEAST p. is_pow2 p \<and> n \<le> p)"

section \<open>Validation of server responses\<close>

text \<open>
  Raising is the left summand of the result; \<open>and_then\<close> runs the next statement when
  the one before did not raise.
\<close>

definition and_then :: "error + 'a \<Rightarrow> ('a \<Rightarrow> error + 'b) \<Rightarrow> error + 'b" where
  "and_then m f = (case m of Inl e \<Rightarrow> Inl e | Inr x \<Rightarrow> f x)"

text \<open>
  Python's floats, as far as the interface uses them: the test \<open>f >= 0\<close>, the comparison
  \<open>f == k\<close> with an integer, and \<open>int(f * k)\<close>, which raises on an infinity or a NaN.
\<close>

record 'f float_ops =
  float_ge0 :: "'f \<Rightarrow> bool"
  float_eq_int :: "'f \<Rightarrow> int \<Rightarrow> bool"
  float_times_int_truncated :: "'f \<Rightarrow> int \<Rightarrow> error + int"

text \<open>
  Modelled from the spec: the predicates of \<open>electrum/util.py\<close>, which is not among the
  sources. The specification lists them as is-integer, is-non-negative-integer,
  is-hex-string (even length, hex alphabet), is-hash256-hex (64 hex chars), is-int-or-float
  and is-non-negative-int-or-float.
\<close>

definition is_integer :: "'f json \<Rightarrow> bool" where
  "is_integer val = (case val of JInt _ \<Rightarrow> True | _ \<Rightarrow> False)"

definition is_non_negative_integer :: "'f json \<Rightarrow> bool" where
  "is_non_negative_integer val = (case val of JInt n \<Rightarrow> 0 \<le> n | _ \<Rightarrow> False)"

definition is_hex_char :: "char \<Rightarrow> bool" where
  "is_hex_char c = (c \<in> set ''0123456789abcdefABCDEF'')"

definition is_hex_str :: "'f json \<Rightarrow> bool" where
  "is_hex_str val = (case val of JStr s \<Rightarrow> even (length s) \<and> list_all is_hex_char s | _ \<Rightarrow> False)"

definition is_hash256_str :: "'f json \<Rightarrow> bool" where
  "is_hash256_str val = (case val of JStr s \<Rightarrow> length s = 64 \<and> list_all is_hex_char s | _ \<Rightarrow> False)"

definition is_int_or_float :: "'f json \<Rightarrow> bool" where
  "is_int_or_float val = (case val of JInt _ \<Rightarrow> True | JFloat _ \<Rightarrow> True | _ \<Rightarrow> False)"

definition is_non_negative_int_or_float :: "'f float_ops \<Rightarrow> 'f json \<Rightarrow> bool" where
  "is_non_negative_int_or_float fops val =
     (case val of JInt n \<Rightarrow> 0 \<le> n | JFloat f \<Rightarrow> float_ge0 fops f | _ \<Rightarrow> False)"

text \<open>
  Modelled from the spec: \<open>bfh\<close> (\<open>bytes.fromhex\<close>) and \<open>chunks\<close> of \<open>electrum/util.py\<close>:
  two hex digits give one byte, and \<open>chunks n\<close> cuts a sequence into pieces of \<open>n\<close>
  items (the last one may be shorter).
\<close>

definition hex_digit_value :: "char \<Rightarrow> nat" where
  "hex_digit_value c =
     (let n = of_char c :: nat
      in if 48 \<le> n \<and> n \<le> 57 then n - 48
         else if 97 \<le> n \<and> n \<le> 102 then n - 87
         else n - 55)"

fun bfh :: "string \<Rightarrow> bytes" where
  "bfh (a # b # rest) = char_of (16 * hex_digit_value a + hex_digit_value b) # bfh rest"
| "bfh _ = []"

function chunks :: "nat \<Rightarrow> 'a list \<Rightarrow> 'a list list" where
  "chunks n xs = (if n = 0 \<or> xs = [] then [] else take n xs # chunks n (drop n xs))"
  by pat_completeness auto
termination
  by (relation "measure (\<lambda>(n, xs). length xs)") auto

declare chunks.simps [simp del]

text \<open>The assertions of the module: each raises \<open>RequestCorrupted\<close>.\<close>

definition assert_non_negative_integer :: "'f json \<Rightarrow> error + unit" where
  "assert_non_negative_integer val =
     (if \<not> is_non_negative_integer val then Inl RequestCorrupted else Inr ())"

definition assert_integer :: "'f json \<Rightarrow> error + unit" where
  "assert_integer val = (if \<not> is_integer val then Inl RequestCorrupted else Inr ())"

definition assert_non_negative_int_or_float :: "'f float_ops \<Rightarrow> 'f json \<Rightarrow> error + unit" where
  "assert_non_negative_int_or_float fops val =
     (if \<not> is_non_negative_int_or_float fops val then Inl RequestCorrupted else Inr ())"

definition assert_hash256_str :: "'f json \<Rightarrow> error + unit" where
  "assert_hash256_str val = (if \<not> is_hash256_str val then Inl RequestCorrupted else Inr ())"

definition assert_hex_str :: "'f json \<Rightarrow> error + unit" where
  "assert_hex_str val = (if \<not> is_hex_str val then Inl RequestCorrupted else Inr ())"

definition assert_dict_contains_field :: "'f json \<Rightarrow> string \<Rightarrow> error + 'f json" where
  "assert_dict_contains_field d field_name =
     (case d of
        JDict items \<Rightarrow>
          (case map_of items field_name of
             None \<Rightarrow> Inl RequestCorrupted
           | Some v \<Rightarrow> Inr v)
      | _ \<Rightarrow> Inl RequestCorrupted)"

definition assert_list_or_tuple :: "'f json \<Rightarrow> error + unit" where
  "assert_list_or_tuple val = (case val of JList _ \<Rightarrow> Inr () | _ \<Rightarrow> Inl RequestCorrupted)"

text \<open>
  Reading a value that a check has already typed: the integer of a JSON integer, the
  characters of a JSON string, the items of a JSON list. \<open>getitem d k\<close> is \<open>d[k]\<close>.
\<close>

definition int_of :: "'f json \<Rightarrow> int" where
  "int_of val = (case val of JInt n \<Rightarrow> n | _ \<Rightarrow> 0)"

definition str_of :: "'f json \<Rightarrow> string" where
  "str_of val = (case val of JStr s \<Rightarrow> s | _ \<Rightarrow> [])"

definition items_of :: "'f json \<Rightarrow> 'f json list" where
  "items_of val = (case val of JList xs \<Rightarrow> xs | _ \<Rightarrow> [])"

definition getitem :: "'f json \<Rightarrow> string \<Rightarrow> error + 'f json" where
  "getitem d k =
     (case d of
        JDict items \<Rightarrow> (case map_of items k of None \<Rightarrow> Inl KeyError | Some v \<Rightarrow> Inr v)
      | _ \<Rightarrow> Inl TypeError)"

section \<open>The interface and what surrounds it\<close>

text \<open>
  Everything outside the interface is the world \<open>'w\<close>: the server behind the session and
  the blockchain store. The functions of \<open>electrum/blockchain.py\<close>, which is not among the
  sources, and the session's \<open>send_request\<close> are parameters: \<open>server\<close> answers a request
  with a result or an exception and moves the world on; \<open>check_header\<close> is
  \<open>blockchain.check_header\<close> (a chain, or nothing); \<open>chain_can_connect w c h\<close> is
  \<open>c.can_connect(h, check_height=False)\<close>; \<open>connect_chunk\<close> is the method of that name;
  \<open>'c\<close> is a chain and \<open>'h\<close> a deserialized header.
\<close>

record ('w, 'c, 'h, 'f) env =
  server :: "'w \<Rightarrow> string \<Rightarrow> 'f json list \<Rightarrow> (error + 'f json) \<times> 'w"
  check_header :: "'w \<Rightarrow> 'h \<Rightarrow> 'c option"
  chain_can_connect :: "'w \<Rightarrow> 'c \<Rightarrow> 'h \<Rightarrow> bool"
  connect_chunk :: "'w \<Rightarrow> 'c \<Rightarrow> int \<Rightarrow> bytes \<Rightarrow> bool \<times> 'w"
  deserialize_header :: "bytes \<Rightarrow> int \<Rightarrow> error + 'h"
  block_height :: "'h \<Rightarrow> int"
  max_checkpoint :: int

text \<open>
  The attributes of an \<open>Interface\<close> that the request methods and the chain resolver read
  or write. \<open>requests\<close> is not in the source: it records the requests sent, oldest
  first, so that "no request was made" can be said.
\<close>

record ('w, 'c, 'f) interface =
  world :: 'w
  blockchain :: "'c option"
  requested_chunks :: "int set"
  tip :: int
  headers_cache :: "int \<Rightarrow> bytes option"
  requests :: "(string \<times> 'f json list) list"

definition HEADER_SIZE :: int where
  "HEADER_SIZE = 80"

definition CHUNK_SIZE :: int where
  "CHUNK_SIZE = 2016"

definition MAX_NUM_HEADERS_PER_REQUEST :: int where
  "MAX_NUM_HEADERS_PER_REQUEST = 2016"

definition COIN :: int where
  "COIN = 100000000"

definition INTERNAL_ERROR :: int where
  "INTERNAL_ERROR = - 32603"

text \<open>\<open>await self.session.send_request(method, params)\<close>.\<close>

definition send_request ::
  "('w, 'c, 'h, 'f) env \<Rightarrow> ('w, 'c, 'f) interface \<Rightarrow> string \<Rightarrow> 'f json list
    \<Rightarrow> (error + 'f json) \<times> ('w, 'c, 'f) interface" where
  "send_request env st method params =
     (case server env (world st) method params of
        (r, w') \<Rightarrow> (r, st\<lparr>world := w', requests := requests st @ [(method, params)]\<rparr>))"

section \<open>Interface.get_history_for_scripthash\<close>

text \<open>\<open>prev_height\<close> is an integer or \<open>float("inf")\<close>.\<close>

datatype height_bound = Height int | Infinity

definition below_bound :: "int \<Rightarrow> height_bound \<Rightarrow> bool" where
  "below_bound h b = (case b of Height p \<Rightarrow> h < p | Infinity \<Rightarrow> True)"

text \<open>
  The loop over the items of the response. The two calls of
  \<open>assert_dict_contains_field\<close> return \<open>tx_item['height']\<close> and \<open>tx_item['tx_hash']\<close>, the
  values the later lines read.
\<close>

fun check_history_items :: "height_bound \<Rightarrow> 'f json list \<Rightarrow> error + unit" where
  "check_history_items prev_height [] = Inr ()"
| "check_history_items prev_height (tx_item # rest) =
     and_then (assert_dict_contains_field tx_item ''height'') (\<lambda>height.
     and_then (assert_dict_contains_field tx_item ''tx_hash'') (\<lambda>tx_hash.
     and_then (assert_integer height) (\<lambda>_.
     and_then (assert_hash256_str tx_hash) (\<lambda>_.
       if int_of height = - 1 \<or> int_of height = 0
       then
         and_then (assert_dict_contains_field tx_item ''fee'') (\<lambda>fee.
         and_then (assert_non_negative_integer fee) (\<lambda>_.
           check_history_items Infinity rest))
       else if below_bound (int_of height) prev_height then Inl RequestCorrupted
       else check_history_items (Height (int_of height)) rest))))"

text \<open>\<open>map(lambda item: item['tx_hash'], res)\<close>.\<close>

fun tx_hashes :: "'f json list \<Rightarrow> error + 'f json list" where
  "tx_hashes [] = Inr []"
| "tx_hashes (item # rest) =
     and_then (getitem item ''tx_hash'') (\<lambda>h.
     and_then (tx_hashes rest) (\<lambda>hs. Inr (h # hs)))"

text \<open>The checks on the response, after the request.\<close>

definition check_history :: "'f json \<Rightarrow> error + 'f json" where
  "check_history res =
     and_then (assert_list_or_tuple res) (\<lambda>_.
     and_then (check_history_items (Height 1) (items_of res)) (\<lambda>_.
     and_then (tx_hashes (items_of res)) (\<lambda>hashes.
       if length (remdups hashes) \<noteq> length (items_of res) then Inl RequestCorrupted
       else Inr res)))"

definition get_history_for_scripthash ::
  "('w, 'c, 'h, 'f) env \<Rightarrow> ('w, 'c, 'f) interface \<Rightarrow> string
    \<Rightarrow> (error + 'f json) \<times> ('w, 'c, 'f) interface" where
  "get_history_for_scripthash env st sh =
     (if \<not> is_hash256_str (JStr sh :: 'f json) then (Inl PyException, st)
      else (case send_request env st ''blockchain.scripthash.get_history'' [JStr sh] of
              (Inl e, st') \<Rightarrow> (Inl e, st')
            | (Inr res, st') \<Rightarrow> (check_history res, st')))"

text \<open>
  What the specification asks of a history: every item has an integer height and a
  hash256 \<open>tx_hash\<close>; an unconfirmed item (height 0 or -1) has a non-negative integer fee;
  the heights of the confirmed items do not decrease; no confirmed item comes after an
  unconfirmed one; the \<open>tx_hash\<close> values are pairwise distinct.
\<close>

definition field :: "'f json \<Rightarrow> string \<Rightarrow> 'f json option" where
  "field d k = (case d of JDict items \<Rightarrow> map_of items k | _ \<Rightarrow> None)"

definition item_height :: "'f json \<Rightarrow> int" where
  "item_height item = (case field item ''height'' of Some (JInt h) \<Rightarrow> h | _ \<Rightarrow> 0)"

definition unconfirmed :: "'f json \<Rightarrow> bool" where
  "unconfirmed item = (item_height item = 0 \<or> item_height item = - 1)"

definition history_item_ok :: "'f json \<Rightarrow> bool" where
  "history_item_ok item =
     ((case field item ''height'' of Some v \<Rightarrow> is_integer v | None \<Rightarrow> False)
      \<and> (case field item ''tx_hash'' of Some v \<Rightarrow> is_hash256_str v | None \<Rightarrow> False)
      \<and> (unconfirmed item \<longrightarrow>
            (case field item ''fee'' of Some v \<Rightarrow> is_non_negative_integer v | None \<Rightarrow> False)))"

definition valid_history :: "'f json \<Rightarrow> bool" where
  "valid_history res =
     (case res of
        JList items \<Rightarrow>
          list_all history_item_ok items
          \<and> sorted (map item_height (filter (\<lambda>item. \<not> unconfirmed item) items))
          \<and> sorted_wrt (\<lambda>a b. unconfirmed a \<longrightarrow> unconfirmed b) items
          \<and> distinct (map (\<lambda>item. field item ''tx_hash'') items)
      | _ \<Rightarrow> False)"

section \<open>Interface.get_block_headers\<close>

text \<open>
  The checks on the response. \<open>count_v\<close>, \<open>hex_v\<close> and \<open>max_v\<close> are \<open>res['count']\<close>,
  \<open>res['hex']\<close> and \<open>res['max']\<close>, which \<open>assert_dict_contains_field\<close> returns.
\<close>

definition check_block_headers :: "int \<Rightarrow> int \<Rightarrow> int \<Rightarrow> 'f json \<Rightarrow> error + bytes list" where
  "check_block_headers self_tip start_height count res =
     and_then (assert_dict_contains_field res ''count'') (\<lambda>count_v.
     and_then (assert_dict_contains_field res ''hex'') (\<lambda>hex_v.
     and_then (assert_dict_contains_field res ''max'') (\<lambda>max_v.
     and_then (assert_non_negative_integer count_v) (\<lambda>_.
     and_then (assert_non_negative_integer max_v) (\<lambda>_.
     and_then (assert_hex_str hex_v) (\<lambda>_.
       if int (length (str_of hex_v)) \<noteq> HEADER_SIZE * 2 * int_of count_v then Inl RequestCorrupted
       else if int_of max_v < MAX_NUM_HEADERS_PER_REQUEST then Inl RequestCorrupted
       else if int_of count_v > count then Inl RequestCorrupted
       else if int_of count_v < count \<and> start_height + int_of count_v - 1 < self_tip
         then Inl RequestCorrupted
       else Inr (chunks (nat HEADER_SIZE) (bfh (str_of hex_v)))))))))"

definition get_block_headers ::
  "('w, 'c, 'h, 'f) env \<Rightarrow> ('w, 'c, 'f) interface \<Rightarrow> int \<Rightarrow> int
    \<Rightarrow> (error + bytes list) \<times> ('w, 'c, 'f) interface" where
  "get_block_headers env st start_height count =
     (if \<not> 0 \<le> start_height then (Inl PyException, st)
      else if \<not> 0 \<le> count \<or> \<not> (0 < count \<and> count \<le> MAX_NUM_HEADERS_PER_REQUEST)
        then (Inl PyException, st)
      else (case send_request env st ''blockchain.block.headers'' [JInt start_height, JInt count] of
              (Inl e, st') \<Rightarrow> (Inl e, st')
            | (Inr res, st') \<Rightarrow> (check_block_headers (tip st') start_height count res, st')))"

text \<open>
  What the specification asks of a response to a request for \<open>count\<close> headers from
  \<open>start_height\<close>: a dictionary with \<open>count\<close>, \<open>max\<close> and \<open>hex\<close>; \<open>max\<close> at least 2016; the
  decoded \<open>hex\<close> is \<open>80 * count\<close> bytes long; no more headers than requested; and fewer
  only when the last one returned is not below the tip.
\<close>

definition headers_response_ok :: "int \<Rightarrow> int \<Rightarrow> int \<Rightarrow> 'f json \<Rightarrow> bool" where
  "headers_response_ok self_tip start_height count res =
     (case field res ''count'' of
        Some (JInt c) \<Rightarrow>
          (case field res ''max'' of
             Some (JInt m) \<Rightarrow>
               (case field res ''hex'' of
                  Some (JStr h) \<Rightarrow>
                    0 \<le> c \<and> 2016 \<le> m \<and> is_hex_str (JStr h :: 'f json)
                    \<and> int (length (bfh h)) = 80 * c
                    \<and> c \<le> count
                    \<and> (c < count \<longrightarrow> \<not> start_height + c - 1 < self_tip)
                | _ \<Rightarrow> False)
           | _ \<Rightarrow> False)
      | _ \<Rightarrow> False)"

section \<open>Interface.get_estimatefee\<close>

fun starts_with :: "'a list \<Rightarrow> 'a list \<Rightarrow> bool" where
  "starts_with [] s = True"
| "starts_with (p # ps) [] = False"
| "starts_with (p # ps) (c # cs) = (p = c \<and> starts_with ps cs)"

text \<open>\<open>sub in s\<close> for two strings.\<close>

fun contains_str :: "string \<Rightarrow> string \<Rightarrow> bool" where
  "contains_str sub [] = (sub = [])"
| "contains_str sub (c # cs) = (starts_with sub (c # cs) \<or> contains_str sub cs)"

text \<open>\<open>val == k\<close> for a decoded JSON value and an integer: a boolean counts as 0 or 1.\<close>

definition py_eq_int :: "'f float_ops \<Rightarrow> 'f json \<Rightarrow> int \<Rightarrow> bool" where
  "py_eq_int fops val k =
     (case val of
        JInt n \<Rightarrow> n = k
      | JFloat f \<Rightarrow> float_eq_int fops f k
      | JBool b \<Rightarrow> (if b then 1 else 0) = k
      | _ \<Rightarrow> False)"

text \<open>\<open>int(res * COIN)\<close> for a number.\<close>

definition times_COIN_truncated :: "'f float_ops \<Rightarrow> 'f json \<Rightarrow> error + 'f json" where
  "times_COIN_truncated fops res =
     (case res of
        JInt n \<Rightarrow> Inr (JInt (n * COIN))
      | JFloat f \<Rightarrow> and_then (float_times_int_truncated fops f COIN) (\<lambda>n. Inr (JInt n))
      | _ \<Rightarrow> Inl TypeError)"

text \<open>
  The two \<open>except\<close> clauses around the request: what \<open>res\<close> is after them, or the
  exception that goes on.
\<close>

definition estimatefee_tolerate :: "error + 'f json \<Rightarrow> error + 'f json" where
  "estimatefee_tolerate r =
     (case r of
        Inr res \<Rightarrow> Inr res
      | Inl (ProtocolError code message) \<Rightarrow>
          if contains_str ''cannot estimate fee'' message then Inr (JInt (- 1))
          else Inl (ProtocolError code message)
      | Inl (RPCError code message) \<Rightarrow>
          if code = INTERNAL_ERROR then Inr (JInt (- 1))
          else Inl (RPCError code message)
      | Inl e \<Rightarrow> Inl e)"

definition get_estimatefee ::
  "'f float_ops \<Rightarrow> ('w, 'c, 'h, 'f) env \<Rightarrow> ('w, 'c, 'f) interface \<Rightarrow> int
    \<Rightarrow> (error + 'f json) \<times> ('w, 'c, 'f) interface" where
  "get_estimatefee fops env st num_blocks =
     (if \<not> 0 \<le> num_blocks then (Inl PyException, st)
      else (case send_request env st ''blockchain.estimatefee'' [JInt num_blocks] of
              (r, st') \<Rightarrow>
                (case estimatefee_tolerate r of
                   Inl e \<Rightarrow> (Inl e, st')
                 | Inr res \<Rightarrow>
                     (if \<not> py_eq_int fops res (- 1)
                      then (and_then (assert_non_negative_int_or_float fops res) (\<lambda>_.
                              times_COIN_truncated fops res), st')
                      else (Inr res, st')))))"

section \<open>Headers: the cache, single headers and chunks\<close>

text \<open>
  \<open>bytes.fromhex\<close> of a value of any type, as \<open>get_block_header\<close> calls it on the
  server's answer: a value that is not a string raises \<open>TypeError\<close>; in a string, ASCII
  white space before a pair of hex digits is skipped, and anything else that is not a
  pair of hex digits raises \<open>ValueError\<close>.
\<close>

definition is_ascii_space :: "char \<Rightarrow> bool" where
  "is_ascii_space c = (of_char c \<in> {9, 10, 11, 12, 13, 32 :: nat})"

fun fromhex :: "string \<Rightarrow> bytes option" where
  "fromhex [] = Some []"
| "fromhex (c # cs) =
     (if is_ascii_space c then fromhex cs
      else (case cs of
              [] \<Rightarrow> None
            | d # ds \<Rightarrow>
                if is_hex_char c \<and> is_hex_char d
                then map_option (\<lambda>bs. char_of (16 * hex_digit_value c + hex_digit_value d) # bs)
                       (fromhex ds)
                else None))"

definition bytes_fromhex :: "'f json \<Rightarrow> error + bytes" where
  "bytes_fromhex val =
     (case val of
        JStr s \<Rightarrow> (case fromhex s of None \<Rightarrow> Inl ValueError | Some bs \<Rightarrow> Inr bs)
      | _ \<Rightarrow> Inl TypeError)"

text \<open>
  \<open>get_block_header\<close>: a cached raw header is used when it is there and not empty (the
  test is on the truth value of the bytes); otherwise the header is requested.
\<close>

definition get_block_header ::
  "('w, 'c, 'h, 'f) env \<Rightarrow> ('w, 'c, 'f) interface \<Rightarrow> int
    \<Rightarrow> (error + 'h) \<times> ('w, 'c, 'f) interface" where
  "get_block_header env st height =
     (if \<not> 0 \<le> height then (Inl PyException, st)
      else (case headers_cache st height of
              Some raw_header \<Rightarrow>
                if raw_header \<noteq> [] then (deserialize_header env raw_header height, st)
                else (case send_request env st ''blockchain.block.header'' [JInt height] of
                        (Inl e, st') \<Rightarrow> (Inl e, st')
                      | (Inr res, st') \<Rightarrow>
                          (and_then (bytes_fromhex res) (\<lambda>raw. deserialize_header env raw height), st'))
            | None \<Rightarrow>
                (case send_request env st ''blockchain.block.header'' [JInt height] of
                   (Inl e, st') \<Rightarrow> (Inl e, st')
                 | (Inr res, st') \<Rightarrow>
                     (and_then (bytes_fromhex res) (\<lambda>raw. deserialize_header env raw height), st'))))"

text \<open>
  The loop \<open>for idx, raw_header in enumerate(headers): self._headers_cache[from_height + idx] = raw_header\<close>.
\<close>

fun cache_headers :: "(int \<Rightarrow> bytes option) \<Rightarrow> int \<Rightarrow> bytes list \<Rightarrow> (int \<Rightarrow> bytes option)" where
  "cache_headers c header_height [] = c"
| "cache_headers c header_height (raw_header # rest) =
     cache_headers (c(header_height \<mapsto> raw_header)) (header_height + 1) rest"

definition maybe_warm_headers_cache ::
  "('w, 'c, 'h, 'f) env \<Rightarrow> ('w, 'c, 'f) interface \<Rightarrow> int \<Rightarrow> int
    \<Rightarrow> (error + unit) \<times> ('w, 'c, 'f) interface" where
  "maybe_warm_headers_cache env st from_height to_height =
     (if \<not> from_height \<le> to_height then (Inl AssertionError, st)
      else if \<not> to_height - from_height < MAX_NUM_HEADERS_PER_REQUEST then (Inl AssertionError, st)
      else if list_all (\<lambda>height. headers_cache st height \<noteq> None) [from_height..to_height]
        then (Inr (), st)
      else (case get_block_headers env st from_height (to_height - from_height + 1) of
              (Inl e, st') \<Rightarrow> (Inl e, st')
            | (Inr headers, st') \<Rightarrow>
                (Inr (), st'\<lparr>headers_cache := cache_headers (headers_cache st') from_height headers\<rparr>)))"

text \<open>
  \<open>request_chunk_below_max_checkpoint\<close>. The \<open>finally\<close> clause runs whether the fetch
  returned or raised. A missing blockchain (\<open>self.blockchain is None\<close>) makes the call of
  \<open>connect_chunk\<close> raise \<open>AttributeError\<close>.
\<close>

definition request_chunk_below_max_checkpoint ::
  "('w, 'c, 'h, 'f) env \<Rightarrow> ('w, 'c, 'f) interface \<Rightarrow> int
    \<Rightarrow> (error + unit) \<times> ('w, 'c, 'f) interface" where
  "request_chunk_below_max_checkpoint env st height =
     (if \<not> 0 \<le> height then (Inl PyException, st)
      else if \<not> height \<le> max_checkpoint env then (Inl AssertionError, st)
      else
        let index = height div CHUNK_SIZE in
        if index \<in> requested_chunks st then (Inr (), st)
        else
          let st1 = st\<lparr>requested_chunks := insert index (requested_chunks st)\<rparr>;
              (r, st2) = get_block_headers env st1 (index * CHUNK_SIZE) CHUNK_SIZE;
              st3 = st2\<lparr>requested_chunks := requested_chunks st2 - {index}\<rparr>
          in (case r of
                Inl e \<Rightarrow> (Inl e, st3)
              | Inr headers \<Rightarrow>
                  (case blockchain st3 of
                     None \<Rightarrow> (Inl AttributeError, st3)
                   | Some chain \<Rightarrow>
                       (case connect_chunk env (world st3) chain index (concat headers) of
                          (conn, w') \<Rightarrow>
                            if \<not> conn then (Inl RequestCorrupted, st3\<lparr>world := w'\<rparr>)
                            else (Inr (), st3\<lparr>world := w'\<rparr>)))))"

section \<open>The binary search for the fork point\<close>

text \<open>
  The loop of \<open>_search_headers_binary\<close>: one call is one pass through the body, and the
  recursive calls are the next passes. It ends because \<open>bad - good\<close> gets smaller.
\<close>

function search_headers_binary_loop ::
  "('w, 'c, 'h, 'f) env \<Rightarrow> ('w, 'c, 'f) interface \<Rightarrow> int \<Rightarrow> int \<Rightarrow> 'h
    \<Rightarrow> (error + int \<times> int \<times> 'h) \<times> ('w, 'c, 'f) interface" where
  "search_headers_binary_loop env st good bad bad_header =
     (if \<not> (0 \<le> good \<and> good < bad) then (Inl AssertionError, st)
      else
        let height = (good + bad) div 2;
            warmed = (if bad - good + 1 \<le> MAX_NUM_HEADERS_PER_REQUEST
                      then maybe_warm_headers_cache env st good bad
                      else (Inr (), st))
        in (case warmed of
              (Inl e, st1) \<Rightarrow> (Inl e, st1)
            | (Inr _, st1) \<Rightarrow>
                (case get_block_header env st1 height of
                   (Inl e, st2) \<Rightarrow> (Inl e, st2)
                 | (Inr header, st2) \<Rightarrow>
                     (case check_header env (world st2) header of
                        Some chain \<Rightarrow>
                          if height + 1 = bad
                          then (Inr (height, bad, bad_header), st2\<lparr>blockchain := Some chain\<rparr>)
                          else search_headers_binary_loop env (st2\<lparr>blockchain := Some chain\<rparr>)
                                 height bad bad_header
                      | None \<Rightarrow>
                          if good + 1 = height
                          then (Inr (good, height, header), st2)
                          else search_headers_binary_loop env st2 good height header))))"
  by pat_completeness auto
termination
  by (relation "measure (\<lambda>(env, st, good, bad, bad_header). nat (bad - good))") auto

declare search_headers_binary_loop.simps [simp del]

text \<open>
  \<open>_search_headers_binary\<close>: the two checks at entry, the loop, and the two checks at
  exit. \<open>_assert_header_does_not_check_against_any_chain\<close> raises a plain \<open>Exception\<close>
  when \<open>blockchain.check_header\<close> finds a chain.
\<close>

definition assert_header_does_not_check_against_any_chain ::
  "('w, 'c, 'h, 'f) env \<Rightarrow> 'w \<Rightarrow> 'h \<Rightarrow> error + unit" where
  "assert_header_does_not_check_against_any_chain env w header =
     (case check_header env w header of Some chain_bad \<Rightarrow> Inl PyException | None \<Rightarrow> Inr ())"

definition search_headers_binary ::
  "('w, 'c, 'h, 'f) env \<Rightarrow> ('w, 'c, 'f) interface \<Rightarrow> int \<Rightarrow> int \<Rightarrow> 'h \<Rightarrow> 'c option
    \<Rightarrow> (error + int \<times> int \<times> 'h) \<times> ('w, 'c, 'f) interface" where
  "search_headers_binary env st height bad bad_header chain =
     (if bad \<noteq> block_height env bad_header then (Inl AssertionError, st)
      else (case assert_header_does_not_check_against_any_chain env (world st) bad_header of
              Inl e \<Rightarrow> (Inl e, st)
            | Inr _ \<Rightarrow>
                (case search_headers_binary_loop env (st\<lparr>blockchain := chain\<rparr>) height bad bad_header of
                   (Inl e, st1) \<Rightarrow> (Inl e, st1)
                 | (Inr (good, bad', bad_header'), st1) \<Rightarrow>
                     (case blockchain st1 of
                        None \<Rightarrow> (Inl AttributeError, st1)
                      | Some c \<Rightarrow>
                          if \<not> chain_can_connect env (world st1) c bad_header'
                          then (Inl PyException, st1)
                          else (case assert_header_does_not_check_against_any_chain env (world st1) bad_header' of
                                  Inl e \<Rightarrow> (Inl e, st1)
                                | Inr _ \<Rightarrow> (Inr (good, bad', bad_header'), st1))))))"

section \<open>Example values\<close>

text \<open>
  A server that answers from a script: the world is the list of the answers still to
  come, and a request takes the first. The blockchain store of this environment knows no
  chain. \<open>fresh_interface\<close> is an interface as \<open>__init__\<close> leaves it.
\<close>

definition scripted_env :: "((error + 'f json) list, unit, unit, 'f) env" where
  "scripted_env =
     \<lparr>server = (\<lambda>w method params.
          (case w of [] \<Rightarrow> (Inl (OtherError ''connection lost''), []) | r # rs \<Rightarrow> (r, rs))),
      check_header = (\<lambda>w h. None),
      chain_can_connect = (\<lambda>w c h. False),
      connect_chunk = (\<lambda>w c index data. (False, w)),
      deserialize_header = (\<lambda>raw height. Inr ()),
      block_height = (\<lambda>h. 0),
      max_checkpoint = 0\<rparr>"

definition fresh_interface :: "'w \<Rightarrow> ('w, 'c, 'f) interface" where
  "fresh_interface w =
     \<lparr>world = w, blockchain = None, requested_chunks = {}, tip = 0,
      headers_cache = (\<lambda>_. None), requests = []\<rparr>"

definition example_sh :: string where
  "example_sh = replicate 64 CHR ''a''"

definition example_history :: "unit json" where
  "example_history =
     JList [JDict [(''height'', JInt 5), (''tx_hash'', JStr (replicate 64 CHR ''a''))],
            JDict [(''height'', JInt 0), (''tx_hash'', JStr (replicate 64 CHR ''b'')),
                   (''fee'', JInt 10)]]"

definition example_bad_history :: "unit json" where
  "example_bad_history =
     JList [JDict [(''height'', JInt 0), (''tx_hash'', JStr (replicate 64 CHR ''b'')),
                   (''fee'', JInt 10)],
            JDict [(''height'', JInt 5), (''tx_hash'', JStr (replicate 64 CHR ''a''))]]"

definition example_headers_response :: "unit json" where
  "example_headers_response =
     JDict [(''count'', JInt 1), (''hex'', JStr (replicate 160 CHR ''0'')), (''max'', JInt 2016)]"

text \<open>
  An instance of \<open>float_ops\<close> for the examples: a float is taken as the real number it
  stands for and the product is exact, so \<open>int(f * k)\<close> truncates the exact product towards
  zero and never raises. This is not Python's arithmetic, which rounds the product to a
  double before truncating (and so can give another integer) and raises on an infinity
  or a NaN; the theorems about \<open>get_estimatefee\<close> hold for every \<open>float_ops\<close> and do not
  rest on this instance.
\<close>

definition exact_float_ops :: "real float_ops" where
  "exact_float_ops =
     \<lparr>float_ge0 = (\<lambda>f. 0 \<le> f),
      float_eq_int = (\<lambda>f k. f = of_int k),
      float_times_int_truncated =
        (\<lambda>f k. Inr (if 0 \<le> f * of_int k then \<lfloor>f * of_int k\<rfloor> else \<lceil>f * of_int k\<rceil>))\<rparr>"

text \<open>
  A store with one chain, chain 0, of height 5, and a server whose chain leaves it after
  height 5. A header is its height and its raw bytes; the headers of the common part are
  the byte 0, those of the server's branch the byte 1. The header of the branch at
  height 6 connects to chain 0. The cache of \<open>fork_interface\<close> holds the server's headers
  4 to 8.
\<close>

definition fork_env :: "(unit, nat, int \<times> bytes, 'f) env" where
  "fork_env =
     \<lparr>server = (\<lambda>w method params. (Inl (OtherError ''connection lost''), w)),
      check_header = (\<lambda>w header. if fst header \<le> 5 \<and> snd header = [CHR 0x00] then Some 0 else None),
      chain_can_connect = (\<lambda>w c header. fst header = 6),
      connect_chunk = (\<lambda>w c index data. (False, w)),
      deserialize_header = (\<lambda>raw height. Inr (height, raw)),
      block_height = fst,
      max_checkpoint = 0\<rparr>"

definition fork_interface :: "(unit, nat, 'f) interface" where
  "fork_interface =
     \<lparr>world = (), blockchain = None, requested_chunks = {}, tip = 8,
      headers_cache = (\<lambda>h. if 4 \<le> h \<and> h \<le> 8
                            then Some [if h \<le> 5 then CHR 0x00 else CHR 0x01] else None),
      requests = []\<rparr>"

section \<open>ServerAddr: construction, parsing and printing\<close>

text \<open>
  \<open>NetAddress\<close> belongs to the aiorpcx library, not to this repository. Its
  constructor classifies the host and validates the port, and \<open>str\<close> of it puts an IPv6
  host in brackets. The two library functions it is built on are parameters:
  \<open>classify_host\<close> (a host name is kept, an address literal is parsed by Python's
  \<open>ipaddress\<close>; \<open>host_str\<close> is \<open>str\<close> of the result, the canonical form of an address) and
  \<open>validate_port\<close>.
\<close>

datatype port_arg = PortInt int | PortStr string

record 'hst net_lib =
  classify_host :: "string \<Rightarrow> error + 'hst"
  host_str :: "'hst \<Rightarrow> string"
  is_ipv6 :: "'hst \<Rightarrow> bool"
  validate_port :: "port_arg \<Rightarrow> error + int"

record 'hst net_address =
  na_host :: 'hst
  na_port :: int

definition NetAddress :: "'hst net_lib \<Rightarrow> string \<Rightarrow> port_arg \<Rightarrow> error + 'hst net_address" where
  "NetAddress lib h p =
     and_then (classify_host lib h) (\<lambda>x.
     and_then (validate_port lib p) (\<lambda>n.
       Inr \<lparr>na_host = x, na_port = n\<rparr>))"

text \<open>\<open>str\<close> of an integer.\<close>

definition digit_char :: "nat \<Rightarrow> char" where
  "digit_char d = char_of (48 + d)"

fun digits :: "nat \<Rightarrow> string" where
  "digits n = (if n < 10 then [digit_char n] else digits (n div 10) @ [digit_char (n mod 10)])"

declare digits.simps [simp del]

definition str_int :: "int \<Rightarrow> string" where
  "str_int i = (if i < 0 then CHR ''-'' # digits (nat (- i)) else digits (nat i))"

definition net_address_str :: "'hst net_lib \<Rightarrow> 'hst net_address \<Rightarrow> string" where
  "net_address_str lib na =
     (if is_ipv6 lib (na_host na)
      then ''['' @ host_str lib (na_host na) @ '']:'' @ str_int (na_port na)
      else host_str lib (na_host na) @ '':'' @ str_int (na_port na))"

definition KNOWN_NETWORK_PROTOCOLS :: "string set" where
  "KNOWN_NETWORK_PROTOCOLS = {''t'', ''s''}"

text \<open>
  \<open>ServerAddr.__init__\<close>: \<open>protocol\<close> is \<open>None\<close> when the keyword is left out. Every
  exception of \<open>NetAddress\<close> becomes a \<open>ValueError\<close>.
\<close>

definition ServerAddr :: "'hst net_lib \<Rightarrow> string \<Rightarrow> port_arg \<Rightarrow> string option \<Rightarrow> error + server_addr" where
  "ServerAddr lib host_arg port_arg protocol_arg =
     (let protocol1 = (case protocol_arg of None \<Rightarrow> ''s'' | Some p \<Rightarrow> p) in
      if host_arg = [] then Inl ValueError
      else
        let host1 = (if hd host_arg = CHR ''['' \<and> last host_arg = CHR '']''
                     then py_slice host_arg 1 (- 1) else host_arg)
        in (case NetAddress lib host1 port_arg of
              Inl e \<Rightarrow> Inl ValueError
            | Inr net_addr \<Rightarrow>
                if protocol1 \<notin> KNOWN_NETWORK_PROTOCOLS then Inl ValueError
                else Inr \<lparr>host = host_str lib (na_host net_addr),
                          port = na_port net_addr,
                          protocol = protocol1,
                          net_addr_str = net_address_str lib net_addr\<rparr>))"

text \<open>
  \<open>s.rsplit(sep, maxsplit)\<close> for a separator of one character: \<open>rsplit1\<close> cuts at the
  last separator, if there is one.
\<close>

definition rsplit1 :: "char \<Rightarrow> string \<Rightarrow> (string \<times> string) option" where
  "rsplit1 sep s =
     (if sep \<in> set s
      then Some (rev (tl (dropWhile (\<lambda>c. c \<noteq> sep) (rev s))), rev (takeWhile (\<lambda>c. c \<noteq> sep) (rev s)))
      else None)"

primrec rsplit :: "char \<Rightarrow> nat \<Rightarrow> string \<Rightarrow> string list" where
  "rsplit sep 0 s = [s]"
| "rsplit sep (Suc n) s =
     (case rsplit1 sep s of None \<Rightarrow> [s] | Some (l, r) \<Rightarrow> rsplit sep n l @ [r])"

text \<open>
  \<open>ServerAddr.from_str\<close>: unpacking anything but three parts raises \<open>ValueError\<close>.
\<close>

definition from_str :: "'hst net_lib \<Rightarrow> string \<Rightarrow> error + server_addr" where
  "from_str lib s =
     (case rsplit CHR '':'' 2 s of
        [host_part, port_part, protocol_part] \<Rightarrow>
          ServerAddr lib host_part (PortStr port_part) (Some protocol_part)
      | _ \<Rightarrow> Inl ValueError)"

text \<open>\<open>ServerAddr.__str__\<close>.\<close>

definition server_addr_str :: "server_addr \<Rightarrow> string" where
  "server_addr_str self = net_addr_str self @ '':'' @ protocol self"

text \<open>
  What the round trip needs of the library. The printed form of a classified host is
  classified again to a host that prints the same (a host name is kept as it is, the
  canonical form of an address is canonical); the printed form of a host that is not an
  IPv6 address is not empty and not in brackets; a port that was accepted is accepted
  again, with the same value, when written in decimal.
\<close>

definition net_lib_laws :: "'hst net_lib \<Rightarrow> bool" where
  "net_lib_laws lib =
     ((\<forall>h x. classify_host lib h = Inr x \<longrightarrow>
          (\<exists>x'. classify_host lib (host_str lib x) = Inr x' \<and> host_str lib x' = host_str lib x))
      \<and> (\<forall>h x. classify_host lib h = Inr x \<and> \<not> is_ipv6 lib x \<longrightarrow>
            host_str lib x \<noteq> []
            \<and> \<not> (hd (host_str lib x) = CHR ''['' \<and> last (host_str lib x) = CHR '']''))
      \<and> (\<forall>p n. validate_port lib p = Inr n \<longrightarrow> validate_port lib (PortStr (str_int n)) = Inr n))"

text \<open>
  An example of the library: a host is a name made of letters, digits, dots, hyphens
  and underscores, or the IPv6 loopback address, written in full or in its canonical
  form \<open>::1\<close>; a port is an integer from 1 to 65535, or a string of decimal digits for one.
\<close>

datatype example_host = HostName string | IPv6Loopback

definition is_hostname_char :: "char \<Rightarrow> bool" where
  "is_hostname_char c =
     (let n = of_char c :: nat
      in (48 \<le> n \<and> n \<le> 57) \<or> (65 \<le> n \<and> n \<le> 90) \<or> (97 \<le> n \<and> n \<le> 122)
         \<or> c = CHR ''.'' \<or> c = CHR ''-'' \<or> c = CHR ''_'')"

definition is_digit_char :: "char \<Rightarrow> bool" where
  "is_digit_char c = (48 \<le> (of_char c :: nat) \<and> (of_char c :: nat) \<le> 57)"

definition parse_digits :: "string \<Rightarrow> nat" where
  "parse_digits s = foldl (\<lambda>acc c. 10 * acc + (of_char c - 48)) 0 s"

definition example_net_lib :: "example_host net_lib" where
  "example_net_lib =
     \<lparr>classify_host = (\<lambda>h.
        if h \<noteq> [] \<and> list_all is_hostname_char h then Inr (HostName h)
        else if h = ''::1'' \<or> h = ''0:0:0:0:0:0:0:1'' then Inr IPv6Loopback
        else Inl ValueError),
      host_str = (\<lambda>x. case x of HostName h \<Rightarrow> h | IPv6Loopback \<Rightarrow> ''::1''),
      is_ipv6 = (\<lambda>x. x = IPv6Loopback),
      validate_port = (\<lambda>p.
        case p of
          PortInt n \<Rightarrow> if 0 < n \<and> n \<le> 65535 then Inr n else Inl ValueError
        | PortStr s \<Rightarrow>
            if s \<noteq> [] \<and> list_all is_digit_char s
               \<and> 0 < parse_digits s \<and> parse_digits s \<le> 65535
            then Inr (int (parse_digits s)) else Inl ValueError)\<rparr>"

chapter \<open>Properties\<close>

section \<open>NotificationSession.unsubscribe\<close>

lemma list_remove_member: "x \<in> set xs \<Longrightarrow> list_remove x xs = Inr (remove1 x xs)"
  by (induction xs) auto

lemma unsubscribe_values_eq:
  "unsubscribe_values q subs = Inr (map (\<lambda>(k, v). (k, remove1 q v)) subs)"
proof (induction subs)
  case Nil
  show ?case by simp
next
  case (Cons kv rest)
  obtain k v where kv: "kv = (k, v)" by (cases kv)
  show ?case
  proof (cases "q \<in> set v")
    case True
    with Cons kv show ?thesis
      by (simp add: list_remove_member)
  next
    case False
    with Cons kv show ?thesis
      by (simp add: remove1_idem)
  qed
qed

text \<open>
  What \<open>unsubscribe(queue)\<close> does on every session: it never raises; every key keeps its
  place, and its list afterwards is the list before with the first occurrence of the queue
  taken out (the same list when the queue was not in it), so the entries of every other
  queue stay as they were, in their order; the result cache and the message counter are
  unchanged.
\<close>

lemma unsubscribe_removes_first_occurrence:
  "unsubscribe q s =
     Inr (s\<lparr>subscriptions := map (\<lambda>(k, v). (k, remove1 q v)) (subscriptions s)\<rparr>)
   \<and> cache (projr (unsubscribe q s)) = cache s
   \<and> map fst (subscriptions (projr (unsubscribe q s))) = map fst (subscriptions s)
   \<and> map (\<lambda>(k, v). filter (\<lambda>x. x \<noteq> q) v) (subscriptions (projr (unsubscribe q s)))
       = map (\<lambda>(k, v). filter (\<lambda>x. x \<noteq> q) v) (subscriptions s)"
proof -
  have other: "filter (\<lambda>x. x \<noteq> q) (remove1 q v) = filter (\<lambda>x. x \<noteq> q) v" for v :: "queue list"
    by (induction v) auto
  have u: "unsubscribe q s =
      Inr (s\<lparr>subscriptions := map (\<lambda>(k, v). (k, remove1 q v)) (subscriptions s)\<rparr>)"
    by (simp add: unsubscribe_def unsubscribe_values_eq)
  show ?thesis
    unfolding u by (simp add: comp_def case_prod_unfold other)
qed

text \<open>
  C10 says that afterwards each list is the list before with the given queue removed, as
  the docstring ("to free object references") and the specification ("removes the queue
  from all keys") do. The code misses the case of a queue that is in a list more than
  once, which two calls of \<open>subscribe\<close> with the same method, parameters and queue produce
  (it appends without looking): \<open>list.remove\<close> takes out one occurrence only. Here queue
  2 is subscribed twice under one key, and after \<open>unsubscribe\<close> it is still subscribed.
\<close>

theorem unsubscribe_leaves_duplicate:
  "unsubscribe 2 \<lparr>subscriptions = [(''k'', [2, 1, 2])], cache = [], msg_counter = 0\<rparr>
     = Inr (\<lparr>subscriptions = [(''k'', [1, 2])], cache = [], msg_counter = 0\<rparr> :: unit session)
   \<and> (2 :: queue) \<in> set [1, 2]"
  by (simp add: unsubscribe_def)

section \<open>ServerAddr.__eq__ and __hash__\<close>

text \<open>
  C9. \<open>a == b\<close> is decided for every pair of \<open>ServerAddr\<close> values, and it holds exactly
  when the triples \<open>(host, port, protocol)\<close> are equal; equal values have equal hashes;
  and comparing with a value of another type gives \<open>False\<close> (the model of \<open>__eq__\<close> has
  no error branch: it returns a boolean on every input).
\<close>

theorem server_addr_eq_consistent:
  "(server_addr_eq a (ServerAddrObj b :: 'f py_obj)
      \<longleftrightarrow> (host a, port a, protocol a) = (host b, port b, protocol b))
   \<and> (server_addr_eq a (ServerAddrObj b :: 'f py_obj)
      \<longrightarrow> server_addr_hash py_hash a = server_addr_hash py_hash b)
   \<and> server_addr_eq a (OtherObj (x :: 'f json)) = False
   \<and> server_addr_ne a (ServerAddrObj b :: 'f py_obj) = (\<not> server_addr_eq a (ServerAddrObj b :: 'f py_obj))"
  by (simp add: server_addr_eq_def server_addr_ne_def server_addr_hash_def)

theorem server_addr_eq_consistent_witness:
  "server_addr_eq
      \<lparr>host = ''example.org'', port = 50002, protocol = ''s'', net_addr_str = ''example.org:50002''\<rparr>
      (ServerAddrObj
         \<lparr>host = ''example.org'', port = 50002, protocol = ''s'', net_addr_str = ''other''\<rparr> :: unit py_obj)
   \<and> server_addr_hash (\<lambda>(h, p, t). p)
        \<lparr>host = ''example.org'', port = 50002, protocol = ''s'', net_addr_str = ''example.org:50002''\<rparr>
     = server_addr_hash (\<lambda>(h, p, t). p)
        \<lparr>host = ''example.org'', port = 50002, protocol = ''s'', net_addr_str = ''other''\<rparr>"
  using server_addr_eq_consistent
    [of "\<lparr>host = ''example.org'', port = 50002, protocol = ''s'', net_addr_str = ''example.org:50002''\<rparr>"
        "\<lparr>host = ''example.org'', port = 50002, protocol = ''s'', net_addr_str = ''other''\<rparr>"
        "\<lambda>(h, p, t). p" "JNull :: unit json"]
  by (simp add: server_addr_eq_def)

section \<open>PaddedRSTransport: packet sizes\<close>

lemma bit_length_gt: "n < 2 ^ bit_length n"
proof (induction n rule: bit_length.induct)
  case (1 n)
  show ?case
  proof (cases "n = 0")
    case True
    then show ?thesis by (simp add: bit_length.simps)
  next
    case False
    with 1 have "n div 2 < 2 ^ bit_length (n div 2)" by simp
    then have "n < 2 * 2 ^ bit_length (n div 2)" by linarith
    with False show ?thesis by (subst bit_length.simps) simp
  qed
qed

lemma bit_length_le: "0 < n \<Longrightarrow> 2 ^ (bit_length n - 1) \<le> n"
proof (induction n rule: bit_length.induct)
  case (1 n)
  show ?case
  proof (cases "n div 2 = 0")
    case True
    with 1(2) have "n = 1" by linarith
    then show ?thesis by (simp add: bit_length.simps)
  next
    case False
    with 1 have ih: "2 ^ (bit_length (n div 2) - 1) \<le> n div 2" by simp
    from False have pos: "0 < bit_length (n div 2)" by (subst bit_length.simps) simp
    have "bit_length n = Suc (bit_length (n div 2))" using 1(2) by (subst bit_length.simps) simp
    then have "(2::nat) ^ (bit_length n - 1) = 2 * 2 ^ (bit_length (n div 2) - 1)"
      using pos by (cases "bit_length (n div 2)") simp_all
    with ih show ?thesis by linarith
  qed
qed

lemma is_pow2_power [simp]: "is_pow2 (2 ^ k)"
  by (auto simp: is_pow2_def)

lemma total_lsize_cases:
  "total_lsize_of n = 2 ^ max 10 (bit_length n)"
proof -
  have "max (1024::int) (2 ^ k) = 2 ^ max 10 k" for k :: nat
  proof (cases "k \<le> 10")
    case True
    then have "(2::int) ^ k \<le> 2 ^ 10" by (intro power_increasing) simp_all
    with True show ?thesis by (simp add: max_def)
  next
    case False
    then have "(2::int) ^ 10 \<le> 2 ^ k" by (intro power_increasing) simp_all
    with False show ?thesis by (simp add: max_def)
  qed
  then show ?thesis by (simp add: total_lsize_of_def MIN_PACKET_SIZE_def)
qed

lemma total_ssize_cases:
  "total_ssize_of n = 2 ^ max 10 (max 10 (bit_length n) - 1)"
proof -
  define k where "k = max 10 (bit_length n)"
  have k: "10 \<le> k" by (simp add: k_def)
  then obtain j where j: "k = Suc j" by (cases k) simp_all
  have "max (1024::int) (2 ^ j) = 2 ^ max 10 j"
  proof (cases "j \<le> 10")
    case True
    then have "(2::int) ^ j \<le> 2 ^ 10" by (intro power_increasing) simp_all
    with True show ?thesis by (simp add: max_def)
  next
    case False
    then have "(2::int) ^ 10 \<le> 2 ^ j" by (intro power_increasing) simp_all
    with False show ?thesis by (simp add: max_def)
  qed
  then show ?thesis
    by (simp add: total_ssize_of_def total_lsize_cases MIN_PACKET_SIZE_def k_def [symmetric] j)
qed

lemma pow2_ge_min: "10 \<le> k \<Longrightarrow> MIN_PACKET_SIZE \<le> 2 ^ k"
proof -
  assume "10 \<le> k"
  then have "(2::int) ^ 10 \<le> 2 ^ k" by (intro power_increasing) simp_all
  then show ?thesis by (simp add: MIN_PACKET_SIZE_def)
qed

lemma rfind_below_range: "rfind_below buf c n = - 1 \<or> (0 \<le> rfind_below buf c n \<and> rfind_below buf c n < int n)"
  by (induction n) auto

lemma rfind_range:
  "0 \<le> e \<Longrightarrow> rfind buf c e = - 1 \<or> (0 \<le> rfind buf c e \<and> rfind buf c e < e \<and> rfind buf c e < int (length buf))"
  using rfind_below_range [of buf c "min (nat e) (length buf)"]
  by (auto simp: rfind_def)

lemma terminator_length: "is_json_rpc_terminator t \<Longrightarrow> length t = 2"
  by (auto simp: is_json_rpc_terminator_def)


lemma total_lsize_gt: "int n < total_lsize_of n"
proof -
  have "n < 2 ^ bit_length n" by (rule bit_length_gt)
  then have "int n < int (2 ^ bit_length n)" by (simp only: of_nat_less_iff)
  then have "int n < 2 ^ bit_length n" by simp
  then show ?thesis by (simp add: total_lsize_of_def less_max_iff_disj)
qed

lemma py_slice_terminator_bounds:
  assumes "is_json_rpc_terminator (py_slice buf (p - 2) p)" "1 \<le> p"
  shows "2 \<le> p \<and> p \<le> int (length buf)"
proof -
  from assms(1) have "length (py_slice buf (p - 2) p) = 2" by (rule terminator_length)
  with assms(2) show ?thesis
    by (auto simp: py_slice_def norm_index_def Let_def split: if_splits)
qed

lemma packet_length:
  assumes "is_json_rpc_terminator (py_slice buf (p - 2) p)" "1 \<le> p" "0 \<le> npad"
  shows "int (length (py_slice_to buf (p - 2) @ replicate (nat npad) c @ py_slice buf (p - 2) p))
           = p + npad"
proof -
  from assms(1) have l: "length (py_slice buf (p - 2) p) = 2" by (rule terminator_length)
  from assms(1,2) have b: "2 \<le> p \<and> p \<le> int (length buf)" by (rule py_slice_terminator_bounds)
  then have "length (py_slice_to buf (p - 2)) = nat (p - 2)"
    by (auto simp: py_slice_to_def norm_index_def)
  with l b assms(3) show ?thesis by simp
qed

lemma choose_packet_cases:
  assumes "choose_packet False buf = (npad, p_idx)" "buf \<noteq> []"
  shows "1 \<le> p_idx \<and> 0 \<le> npad
         \<and> (p_idx + npad = total_lsize_of (length buf) \<or> p_idx + npad = total_ssize_of (length buf))"
proof -
  define n where "n = length buf"
  define found where "found = rfind buf newline (total_ssize_of n)"
  have ss0: "0 \<le> total_ssize_of n" by (simp add: total_ssize_cases)
  have fr: "found = - 1 \<or> (0 \<le> found \<and> found < total_ssize_of n \<and> found < int n)"
    unfolding found_def using rfind_range [OF ss0, of buf newline] by (simp add: n_def)
  from assms(2) have n1: "1 \<le> int n" by (cases buf) (simp_all add: n_def)
  from assms(1) fr n1 total_lsize_gt [of n] show ?thesis
    unfolding choose_packet_def
    by (auto simp: Let_def n_def [symmetric] found_def [symmetric] npad_lsize_of_def
        split: if_splits)
qed

text \<open>
  C4. Whenever \<open>_maybe_consume_sbuffer\<close> writes a packet while \<open>_force_send\<close> is false,
  the packet written (payload, pad spaces and terminator together) has a length that is
  a power of two and at least \<open>MIN_PACKET_SIZE = 1024\<close>.
\<close>

theorem emitted_packet_length_pow2:
  assumes "maybe_consume_sbuffer now now' t = Inr t'"
    and "\<not> force_send t"
    and "written t' \<noteq> written t"
  shows "\<exists>pkt. written t' = written t @ [pkt]
           \<and> is_pow2 (int (length pkt)) \<and> MIN_PACKET_SIZE \<le> int (length pkt)"
proof -
  define buf where "buf = sbuffer t"
  define n where "n = length buf"
  obtain npad p_idx where cp: "choose_packet False buf = (npad, p_idx)"
    by (cases "choose_packet False buf")
  define pkt where "pkt = py_slice_to buf (p_idx - 2) @ replicate (nat npad) CHR '' '' @ py_slice buf (p_idx - 2) p_idx"
  from assms have wp: "write_packet now' t npad p_idx = Inr t'" and n0: "buf \<noteq> []"
    unfolding maybe_consume_sbuffer_def
    by (auto simp: buf_def [symmetric] cp split: if_splits)
  then have emitted: "is_json_rpc_terminator (py_slice buf (p_idx - 2) p_idx) \<and> written t' = written t @ [pkt]"
    unfolding write_packet_def
    by (auto simp: Let_def buf_def [symmetric] pkt_def split: if_splits)
  from choose_packet_cases [OF cp n0]
  have p1: "1 \<le> p_idx" and np: "0 \<le> npad"
    and tot: "p_idx + npad = total_lsize_of n \<or> p_idx + npad = total_ssize_of n"
    by (simp_all add: n_def)
  have len: "int (length pkt) = p_idx + npad"
    unfolding pkt_def using emitted p1 np by (intro packet_length) simp_all
  from tot have "\<exists>k\<ge>10. p_idx + npad = 2 ^ k"
    by (simp only: total_lsize_cases total_ssize_cases) auto
  with len obtain k :: nat where k: "10 \<le> k" "int (length pkt) = 2 ^ k" by auto
  have "is_pow2 (int (length pkt))" unfolding k(2) by (rule is_pow2_power)
  moreover have "MIN_PACKET_SIZE \<le> int (length pkt)" unfolding k(2) using k(1) by (rule pow2_ge_min)
  ultimately have "is_pow2 (int (length pkt)) \<and> MIN_PACKET_SIZE \<le> int (length pkt)" ..
  with emitted show ?thesis by blast
qed

lemma bit_length_three: "bit_length (Suc (Suc (Suc 0))) = 2"
  by code_simp

lemma rfind_example: "rfind [CHR ''{'', CHR ''}'', newline] newline 1024 = 2"
  by (simp add: rfind_def newline_def eval_nat_numeral)

lemma choose_packet_example: "choose_packet False [CHR ''{'', CHR ''}'', newline] = (1021, 3)"
  by (simp add: choose_packet_def total_ssize_of_def total_lsize_of_def npad_lsize_of_def
        bit_length_three MIN_PACKET_SIZE_def rfind_example Let_def)


theorem emitted_packet_length_pow2_witness:
  "maybe_consume_sbuffer 2 3
      \<lparr>sbuffer = [CHR ''{'', CHR ''}'', newline], last_send = 0, force_send = False,
       can_send = True, is_closing = False, sbuffer_has_data_evt = True, written = []\<rparr>
     = Inr \<lparr>sbuffer = [], last_send = 3, force_send = False,
       can_send = True, is_closing = False, sbuffer_has_data_evt = False,
       written = [CHR ''{'' # replicate 1021 CHR '' '' @ [CHR ''}'', newline]]\<rparr>
   \<and> (\<exists>pkt. [CHR ''{'' # replicate 1021 CHR '' '' @ [CHR ''}'', newline]] = [] @ [pkt]
          \<and> is_pow2 (int (length pkt)) \<and> MIN_PACKET_SIZE \<le> int (length pkt))"
proof -
  have run: "maybe_consume_sbuffer 2 3
      \<lparr>sbuffer = [CHR ''{'', CHR ''}'', newline], last_send = 0, force_send = False,
       can_send = True, is_closing = False, sbuffer_has_data_evt = True, written = []\<rparr>
     = Inr \<lparr>sbuffer = [], last_send = 3, force_send = False,
       can_send = True, is_closing = False, sbuffer_has_data_evt = False,
       written = [CHR ''{'' # replicate 1021 CHR '' '' @ [CHR ''}'', newline]]\<rparr>"
    by (simp add: maybe_consume_sbuffer_def choose_packet_example write_packet_def MIN_PACKET_SIZE_def
        WAIT_FOR_BUFFER_GROWTH_SECONDS_def is_json_rpc_terminator_def py_slice_def
        py_slice_from_def py_slice_to_def norm_index_def Let_def)
  from emitted_packet_length_pow2 [OF run] run show ?thesis by simp
qed

lemma next_pow2_fixed: "is_pow2 p \<Longrightarrow> next_pow2 p = p"
  unfolding next_pow2_def by (rule Least_equality) simp_all

lemma next_pow2_succ: "next_pow2 (int n + 1) = 2 ^ bit_length n"
  unfolding next_pow2_def
proof (rule Least_equality)
  have "n < 2 ^ bit_length n" by (rule bit_length_gt)
  then have "int n < int (2 ^ bit_length n)" by (simp only: of_nat_less_iff)
  then have "int n < 2 ^ bit_length n" by simp
  then have "int n + 1 \<le> 2 ^ bit_length n" by linarith
  then show "is_pow2 (2 ^ bit_length n) \<and> int n + 1 \<le> 2 ^ bit_length n"
    using is_pow2_power by blast
next
  fix y :: int
  assume "is_pow2 y \<and> int n + 1 \<le> y"
  then obtain k :: nat where y: "y = 2 ^ k" and ny: "int n + 1 \<le> 2 ^ k"
    by (auto simp: is_pow2_def)
  from ny have "int n < 2 ^ k" by linarith
  then have nk: "n < 2 ^ k" by simp
  have "bit_length n \<le> k"
  proof (cases "n = 0")
    case True
    then show ?thesis by (simp add: bit_length.simps)
  next
    case False
    then have "0 < n" by simp
    then have "2 ^ (bit_length n - 1) \<le> n" by (rule bit_length_le)
    with nk have "(2::nat) ^ (bit_length n - 1) < 2 ^ k" by linarith
    then have "bit_length n - 1 < k" by (simp add: power_strict_increasing_iff)
    then show ?thesis by simp
  qed
  then have "(2::int) ^ bit_length n \<le> 2 ^ k" by (intro power_increasing) simp_all
  with y show "2 ^ bit_length n \<le> y" by simp
qed

lemma bit_length_pow2: "bit_length (2 ^ k) = Suc k"
proof (induction k)
  case 0
  show ?case by (simp add: bit_length.simps)
next
  case (Suc k)
  have "bit_length (2 ^ Suc k) = Suc (bit_length (2 ^ Suc k div 2))"
    by (subst bit_length.simps) simp
  with Suc show ?case by simp
qed

text \<open>
  C5, as stated, fails: for a buffer of 1024 bytes \<open>next_pow2\<close> is 1024 itself, but the code
  computes \<open>2 ** (1024).bit_length() = 2048\<close>, so option (1) pads with 1024 spaces, not 0.
\<close>

theorem total_lsize_counterexample:
  "total_lsize_of 1024 \<noteq> max MIN_PACKET_SIZE (next_pow2 1024) \<and> npad_lsize_of 1024 \<noteq> 0"
proof -
  have "is_pow2 1024" unfolding is_pow2_def by (rule exI [of _ 10]) simp
  then have np: "next_pow2 1024 = 1024" by (rule next_pow2_fixed)
  have "bit_length 1024 = 11" using bit_length_pow2 [of 10] by simp
  then have tl: "total_lsize_of 1024 = 2048" by (simp add: total_lsize_of_def MIN_PACKET_SIZE_def)
  show ?thesis by (simp add: np tl npad_lsize_of_def MIN_PACKET_SIZE_def)
qed

lemma rfind_last:
  assumes "buf \<noteq> []" and "last buf = c" and "int (length buf) \<le> e"
  shows "rfind buf c e = int (length buf) - 1"
proof -
  from assms(1) obtain m where m: "length buf = Suc m" by (cases buf) simp_all
  from assms(3) have "min (nat e) (length buf) = Suc m" using m by linarith
  moreover from assms(1,2) m have "buf ! m = c" by (simp add: last_conv_nth)
  ultimately show ?thesis by (simp add: rfind_def m)
qed

lemma exact_fit_sizes:
  assumes p: "is_pow2 (int n)" and m: "MIN_PACKET_SIZE \<le> int n"
  shows "total_lsize_of n = 2 * int n" and "npad_lsize_of n = int n" and "total_ssize_of n = int n"
proof -
  from p obtain k :: nat where "int n = 2 ^ k" by (auto simp: is_pow2_def)
  then have "int n = int (2 ^ k)" by simp
  then have nk: "n = 2 ^ k" by (simp only: of_nat_eq_iff)
  have "total_lsize_of n = max MIN_PACKET_SIZE (2 * int n)"
    by (simp add: total_lsize_of_def nk bit_length_pow2)
  with m show l: "total_lsize_of n = 2 * int n" by (simp add: max_def)
  then show "npad_lsize_of n = int n" by (simp add: npad_lsize_of_def)
  from l m show "total_ssize_of n = int n" by (simp add: total_ssize_of_def max_def)
qed

lemma choose_packet_exact_fit:
  assumes p: "is_pow2 (int (length buf))" and m: "MIN_PACKET_SIZE \<le> int (length buf)"
    and nl: "last buf = newline"
  shows "choose_packet False buf = (0, int (length buf))"
proof -
  note sz = exact_fit_sizes [OF p m]
  from m have ne: "buf \<noteq> []" by (cases buf) (simp_all add: MIN_PACKET_SIZE_def)
  have f: "rfind buf newline (int (length buf)) = int (length buf) - 1"
    using rfind_last [OF ne nl, of "int (length buf)"] by simp
  from ne have pos: "0 < int (length buf)" by simp
  show ?thesis
    unfolding choose_packet_def Let_def sz f using pos by simp
qed

text \<open>
  C5, amended. For every buffer length \<open>n\<close>,
  \<open>total_lsize = max(MIN_PACKET_SIZE, 2 ** n.bit_length())\<close>, which is the maximum of
  \<open>MIN_PACKET_SIZE\<close> and the least power of two strictly greater than \<open>n\<close>, and
  \<open>npad_lsize = total_lsize - n\<close> is positive. In particular, when \<open>n\<close> is itself a power of
  two that is at least 1024: \<open>total_lsize = 2 n\<close>, so option (1) would pad with \<open>n\<close> spaces;
  \<open>total_ssize = n\<close>; and for every buffer of that length that ends in a newline the
  choice made with \<open>force_send\<close> false is option (2) with \<open>p_idx = n\<close> and no padding.
\<close>

theorem total_lsize_strictly_greater_pow2:
  "total_lsize_of n = max MIN_PACKET_SIZE (2 ^ bit_length n)
   \<and> total_lsize_of n = max MIN_PACKET_SIZE (next_pow2 (int n + 1))
   \<and> npad_lsize_of n = total_lsize_of n - int n
   \<and> 0 < npad_lsize_of n
   \<and> (is_pow2 (int n) \<and> MIN_PACKET_SIZE \<le> int n
        \<longrightarrow> total_lsize_of n = 2 * int n \<and> npad_lsize_of n = int n
            \<and> total_ssize_of n = int n
            \<and> (\<forall>buf. length buf = n \<and> last buf = newline
                  \<longrightarrow> choose_packet False buf = (0, int n)))"
proof -
  have a: "total_lsize_of n = max MIN_PACKET_SIZE (next_pow2 (int n + 1))"
    by (simp only: next_pow2_succ total_lsize_of_def)
  have b: "0 < npad_lsize_of n" using total_lsize_gt [of n] by (simp add: npad_lsize_of_def)
  have c: "total_lsize_of n = 2 * int n \<and> npad_lsize_of n = int n \<and> total_ssize_of n = int n
           \<and> (\<forall>buf. length buf = n \<and> last buf = newline
                  \<longrightarrow> choose_packet False buf = (0, int n))"
    if p: "is_pow2 (int n)" and m: "MIN_PACKET_SIZE \<le> int n"
    using exact_fit_sizes [OF p m] choose_packet_exact_fit p m by blast
  show ?thesis using a b c by (simp add: total_lsize_of_def npad_lsize_of_def)
qed

theorem total_lsize_strictly_greater_pow2_witness:
  "is_pow2 (int 1024) \<and> MIN_PACKET_SIZE \<le> int 1024
   \<and> total_lsize_of 1024 = 2048 \<and> npad_lsize_of 1024 = 1024 \<and> total_ssize_of 1024 = 1024
   \<and> length (replicate 1022 CHR ''x'' @ [CHR ''}'', newline]) = 1024
   \<and> last (replicate 1022 CHR ''x'' @ [CHR ''}'', newline]) = newline
   \<and> choose_packet False (replicate 1022 CHR ''x'' @ [CHR ''}'', newline]) = (0, 1024)"
proof -
  have p: "is_pow2 (int 1024)" unfolding is_pow2_def by (rule exI [of _ 10]) simp
  have m: "MIN_PACKET_SIZE \<le> int 1024" by (simp add: MIN_PACKET_SIZE_def)
  have l: "length (replicate 1022 CHR ''x'' @ [CHR ''}'', newline]) = 1024" by simp
  have n: "last (replicate 1022 CHR ''x'' @ [CHR ''}'', newline]) = newline" by simp
  from total_lsize_strictly_greater_pow2 [of 1024] p m
  have s: "total_lsize_of 1024 = 2048" "npad_lsize_of 1024 = 1024" "total_ssize_of 1024 = 1024"
    and c: "\<forall>buf. length buf = 1024 \<and> last buf = newline
              \<longrightarrow> choose_packet False buf = (0, int 1024)"
    by simp_all
  from c l n have "choose_packet False (replicate 1022 CHR ''x'' @ [CHR ''}'', newline]) = (0, 1024)"
    by (metis of_nat_numeral)
  with p m s l n show ?thesis by blast
qed

section \<open>get_history_for_scripthash: the history returned is valid\<close>

lemma and_then_Inl [simp]: "and_then (Inl e) f = Inl e"
  by (simp add: and_then_def)

lemma and_then_Inr [simp]: "and_then (Inr x) f = f x"
  by (simp add: and_then_def)

lemma assert_dict_contains_field_cases:
  "assert_dict_contains_field d k = (case field d k of None \<Rightarrow> Inl RequestCorrupted | Some v \<Rightarrow> Inr v)"
  by (simp add: assert_dict_contains_field_def field_def split: json.splits option.splits)

lemma is_integer_iff: "is_integer v \<longleftrightarrow> (\<exists>n. v = JInt n)"
  by (cases v) (simp_all add: is_integer_def)

lemma check_history_items_step:
  "check_history_items prev (item # rest) =
     (if \<not> history_item_ok item then Inl RequestCorrupted
      else if unconfirmed item then check_history_items Infinity rest
      else if below_bound (item_height item) prev then Inl RequestCorrupted
      else check_history_items (Height (item_height item)) rest)"
  by (auto simp: assert_dict_contains_field_cases history_item_ok_def unconfirmed_def
      item_height_def assert_integer_def assert_hash256_str_def assert_non_negative_integer_def
      int_of_def is_integer_iff
      split: option.splits)


lemma check_history_items_result:
  "check_history_items prev items = Inr () \<or> check_history_items prev items = Inl RequestCorrupted"
proof (induction items arbitrary: prev)
  case Nil
  show ?case by simp
next
  case (Cons item rest)
  show ?case
    unfolding check_history_items_step using Cons.IH by auto
qed

lemma check_history_items_ok:
  "check_history_items prev items = Inr () \<Longrightarrow>
     list_all history_item_ok items
     \<and> sorted (map item_height (filter (\<lambda>item. \<not> unconfirmed item) items))
     \<and> sorted_wrt (\<lambda>a b. unconfirmed a \<longrightarrow> unconfirmed b) items
     \<and> (\<forall>x\<in>set items. \<not> unconfirmed x \<longrightarrow> \<not> below_bound (item_height x) prev)"
proof (induction items arbitrary: prev)
  case Nil
  show ?case by simp
next
  case (Cons item rest)
  from Cons.prems have ok: "history_item_ok item"
    unfolding check_history_items_step by (auto split: if_splits)
  show ?case
  proof (cases "unconfirmed item")
    case True
    with Cons.prems ok have "check_history_items Infinity rest = Inr ()"
      unfolding check_history_items_step by simp
    from Cons.IH [OF this] have ih: "list_all history_item_ok rest"
      "sorted_wrt (\<lambda>a b. unconfirmed a \<longrightarrow> unconfirmed b) rest"
      "\<forall>x\<in>set rest. unconfirmed x"
      by (auto simp: below_bound_def)
    from ih(3) have "filter (\<lambda>item. \<not> unconfirmed item) rest = []"
      by (simp add: filter_empty_conv)
    with ih ok True show ?thesis by simp
  next
    case False
    with Cons.prems ok have nb: "\<not> below_bound (item_height item) prev"
      and r: "check_history_items (Height (item_height item)) rest = Inr ()"
      unfolding check_history_items_step by (auto split: if_splits)
    from Cons.IH [OF r] have ih: "list_all history_item_ok rest"
      "sorted (map item_height (filter (\<lambda>item. \<not> unconfirmed item) rest))"
      "sorted_wrt (\<lambda>a b. unconfirmed a \<longrightarrow> unconfirmed b) rest"
      "\<forall>x\<in>set rest. \<not> unconfirmed x \<longrightarrow> item_height item \<le> item_height x"
      by (auto simp: below_bound_def)
    from nb ih(4) have "\<forall>x\<in>set rest. \<not> unconfirmed x \<longrightarrow> \<not> below_bound (item_height x) prev"
      by (auto simp: below_bound_def split: height_bound.splits)
    with ih ok False nb show ?thesis by auto
  qed
qed

lemma history_item_ok_tx_hash:
  "history_item_ok item \<Longrightarrow> \<exists>v. field item ''tx_hash'' = Some v"
  by (cases "field item ''tx_hash''") (simp_all add: history_item_ok_def)

lemma tx_hashes_ok:
  "list_all history_item_ok items \<Longrightarrow>
     tx_hashes items = Inr (map (\<lambda>item. the (field item ''tx_hash'')) items)"
proof (induction items)
  case Nil
  show ?case by simp
next
  case (Cons item rest)
  from Cons.prems obtain v where "field item ''tx_hash'' = Some v"
    using history_item_ok_tx_hash [of item] by auto
  then have "getitem item ''tx_hash'' = Inr v"
    by (auto simp: getitem_def field_def split: json.splits)
  with Cons \<open>field item ''tx_hash'' = Some v\<close> show ?case by simp
qed

lemma distinct_fields:
  "list_all history_item_ok items \<Longrightarrow>
     distinct (map (\<lambda>item. the (field item ''tx_hash'')) items)
       \<longleftrightarrow> distinct (map (\<lambda>item. field item ''tx_hash'') items)"
proof -
  assume a: "list_all history_item_ok items"
  have some: "\<exists>v. field item ''tx_hash'' = Some v" if "item \<in> set items" for item
    using a that history_item_ok_tx_hash [of item] by (simp add: list_all_iff)
  have "map (\<lambda>item. field item ''tx_hash'') items
          = map Some (map (\<lambda>item. the (field item ''tx_hash'')) items)"
    using some by auto
  then show ?thesis by (simp only: distinct_map) (auto simp: distinct_map)
qed

lemma check_history_cases:
  "check_history res = (if valid_history res \<and> check_history_items (Height 1) (items_of res) = Inr ()
                        then Inr res else Inl RequestCorrupted)"
proof (cases res)
  case (JList items)
  show ?thesis
  proof (cases "check_history_items (Height 1) items = Inr ()")
    case True
    from check_history_items_ok [OF True] have ok: "list_all history_item_ok items"
      "sorted (map item_height (filter (\<lambda>item. \<not> unconfirmed item) items))"
      "sorted_wrt (\<lambda>a b. unconfirmed a \<longrightarrow> unconfirmed b) items"
      by simp_all
    define hs where "hs = map (\<lambda>item. the (field item ''tx_hash'')) items"
    have "length (remdups hs) = length items \<longleftrightarrow> length (remdups hs) = length hs"
      by (simp add: hs_def)
    also have "\<dots> \<longleftrightarrow> distinct hs"
      by (simp only: length_remdups_eq remdups_id_iff_distinct)
    finally have len: "length (remdups (map (\<lambda>item. the (field item ''tx_hash'')) items)) = length items
            \<longleftrightarrow> distinct (map (\<lambda>item. field item ''tx_hash'') items)"
      using distinct_fields [OF ok(1)] by (simp add: hs_def)
    show ?thesis
      using True ok len
      by (simp add: check_history_def JList assert_list_or_tuple_def items_of_def
          tx_hashes_ok valid_history_def)
  next
    case False
    with check_history_items_result [of "Height 1" items]
    have "check_history_items (Height 1) items = Inl RequestCorrupted" by blast
    with False show ?thesis
      by (simp add: check_history_def JList assert_list_or_tuple_def items_of_def)
  qed
qed (simp_all add: check_history_def assert_list_or_tuple_def valid_history_def)

text \<open>
  C3. Every list that \<open>get_history_for_scripthash\<close> returns is the server's answer and is
  a valid history: each item has an integer height and a hash256 \<open>tx_hash\<close>, the heights of
  the confirmed items do not decrease (equal heights are accepted), each unconfirmed item
  (height 0 or -1) has a non-negative integer fee, the \<open>tx_hash\<close> values are pairwise
  distinct, and no confirmed item follows an unconfirmed one. And when the server answers
  a request for a well-formed script hash with a value that is not a valid history, the
  method raises \<open>RequestCorrupted\<close>.
\<close>

theorem history_validated:
  "(fst (get_history_for_scripthash env st sh) = Inr r
      \<longrightarrow> valid_history r
          \<and> (\<exists>w'. server env (world st) ''blockchain.scripthash.get_history'' [JStr sh] = (Inr r, w')))
   \<and> (is_hash256_str (JStr sh :: 'f json)
       \<and> server env (world st) ''blockchain.scripthash.get_history'' [JStr sh] = (Inr res, w')
       \<and> \<not> valid_history res
      \<longrightarrow> fst (get_history_for_scripthash env st sh) = Inl RequestCorrupted)"
  for env :: "('w, 'c, 'h, 'f) env" and st :: "('w, 'c, 'f) interface"
  by (auto simp: get_history_for_scripthash_def send_request_def check_history_cases
      split: prod.splits sum.splits if_splits)


lemma is_hash256_str_replicate:
  "is_hex_char c \<Longrightarrow> is_hash256_str (JStr (replicate 64 c))"
  by (simp add: is_hash256_str_def list_all_iff)

lemma hex_a: "is_hex_char CHR ''a''" and hex_b: "is_hex_char CHR ''b''"
  by (simp_all add: is_hex_char_def)

theorem history_validated_witness:
  "fst (get_history_for_scripthash scripted_env (fresh_interface [Inr example_history]) example_sh)
     = Inr example_history
   \<and> valid_history example_history
   \<and> \<not> valid_history example_bad_history
   \<and> fst (get_history_for_scripthash scripted_env
            (fresh_interface [Inr example_bad_history]) example_sh)
     = Inl RequestCorrupted"
proof -
  let ?st = "fresh_interface [Inr example_history] :: ((error + unit json) list, unit, unit) interface"
  let ?st' = "fresh_interface [Inr example_bad_history] :: ((error + unit json) list, unit, unit) interface"
  have sh: "is_hash256_str (JStr example_sh :: unit json)"
    unfolding example_sh_def by (rule is_hash256_str_replicate [OF hex_a])
  have run: "fst (get_history_for_scripthash scripted_env ?st example_sh) = Inr example_history"
    using sh is_hash256_str_replicate [OF hex_a, where ?'a = unit]
      is_hash256_str_replicate [OF hex_b, where ?'a = unit]
    by (simp add: get_history_for_scripthash_def send_request_def scripted_env_def
        fresh_interface_def check_history_def assert_list_or_tuple_def items_of_def
        assert_dict_contains_field_def assert_integer_def is_integer_def
        assert_hash256_str_def int_of_def assert_non_negative_integer_def
        is_non_negative_integer_def below_bound_def getitem_def example_history_def)
  have bad: "\<not> valid_history example_bad_history"
    by (simp add: valid_history_def unconfirmed_def item_height_def field_def example_bad_history_def)
  have srv: "server scripted_env (world ?st')
               ''blockchain.scripthash.get_history'' [JStr example_sh] = (Inr example_bad_history, [])"
    by (simp add: scripted_env_def fresh_interface_def)
  from history_validated [of scripted_env ?st example_sh example_history example_history "[]"] run
  have v: "valid_history example_history" by simp
  from history_validated [of scripted_env ?st' example_sh example_history example_bad_history "[]"]
    sh srv bad
  have rc: "fst (get_history_for_scripthash scripted_env ?st' example_sh) = Inl RequestCorrupted"
    by blast
  from run v bad rc show ?thesis by blast
qed

section \<open>get_block_headers: the response accepted is well-formed\<close>

lemma length_bfh: "length (bfh s) = length s div 2"
  by (induction s rule: bfh.induct) simp_all

lemma chunks_Nil: "chunks n [] = []"
  by (subst chunks.simps) simp

lemma chunks_step: "0 < n \<Longrightarrow> xs \<noteq> [] \<Longrightarrow> chunks n xs = take n xs # chunks n (drop n xs)"
  by (subst chunks.simps) simp

lemma length_chunks:
  "0 < n \<Longrightarrow> length xs = n * k \<Longrightarrow> length (chunks n xs) = k \<and> list_all (\<lambda>c. length c = n) (chunks n xs)"
proof (induction k arbitrary: xs)
  case 0
  then show ?case by (simp add: chunks_Nil)
next
  case (Suc k)
  from Suc.prems have ne: "xs \<noteq> []" by auto
  from Suc.prems have l: "length (drop n xs) = n * k" by simp
  from Suc.prems have "n \<le> length xs" by simp
  with Suc.IH [OF Suc.prems(1) l] show ?case
    by (simp add: chunks_step [OF Suc.prems(1) ne])
qed

lemma is_non_negative_integer_iff: "is_non_negative_integer v \<longleftrightarrow> (\<exists>n\<ge>0. v = JInt n)"
  by (cases v) (simp_all add: is_non_negative_integer_def)

lemma is_hex_str_iff:
  "is_hex_str v \<longleftrightarrow> (\<exists>s. v = JStr s \<and> even (length s) \<and> list_all is_hex_char s)"
  by (cases v) (simp_all add: is_hex_str_def)

lemma some_int_case:
  "(case x of None \<Rightarrow> False | Some v \<Rightarrow> (case v of JInt c \<Rightarrow> P c | _ \<Rightarrow> False))
     \<longleftrightarrow> (\<exists>c. x = Some (JInt c) \<and> P c)"
proof (cases x)
  case None
  then show ?thesis by simp
next
  case (Some v)
  then show ?thesis by (cases v) simp_all
qed

lemma some_str_case:
  "(case x of None \<Rightarrow> False | Some v \<Rightarrow> (case v of JStr c \<Rightarrow> P c | _ \<Rightarrow> False))
     \<longleftrightarrow> (\<exists>c. x = Some (JStr c) \<and> P c)"
proof (cases x)
  case None
  then show ?thesis by simp
next
  case (Some v)
  then show ?thesis by (cases v) simp_all
qed

lemma headers_response_ok_iff:
  "headers_response_ok self_tip start_height count res \<longleftrightarrow>
     (\<exists>c m h. field res ''count'' = Some (JInt c) \<and> field res ''max'' = Some (JInt m)
        \<and> field res ''hex'' = Some (JStr h)
        \<and> 0 \<le> c \<and> 2016 \<le> m \<and> is_hex_str (JStr h :: 'f json)
        \<and> int (length (bfh h)) = 80 * c \<and> c \<le> count
        \<and> (c < count \<longrightarrow> \<not> start_height + c - 1 < self_tip))"
  for res :: "'f json"
  unfolding headers_response_ok_def some_int_case some_str_case
  by blast

lemma check_block_headers_cases:
  "check_block_headers self_tip start_height count res =
     (if headers_response_ok self_tip start_height count res
      then Inr (chunks 80 (bfh (str_of (the (field res ''hex'')))))
      else Inl RequestCorrupted)"
proof -
  have even_len: "int (length s div 2) = 80 * c \<longleftrightarrow> int (length s) = 80 * 2 * c"
    if "even (length s)" for s :: string and c :: int
    using that by (auto elim!: evenE)
  show ?thesis
  proof (cases "\<exists>vc vh vm. field res ''count'' = Some vc \<and> field res ''hex'' = Some vh
                  \<and> field res ''max'' = Some vm")
    case False
    then have "\<not> headers_response_ok self_tip start_height count res"
      unfolding headers_response_ok_iff by auto
    moreover from False have "check_block_headers self_tip start_height count res = Inl RequestCorrupted"
      unfolding check_block_headers_def assert_dict_contains_field_cases
      by (auto split: option.splits)
    ultimately show ?thesis by simp
  next
    case True
    then obtain vc vh vm where f: "field res ''count'' = Some vc" "field res ''hex'' = Some vh"
      "field res ''max'' = Some vm" by blast
    show ?thesis
    proof (cases "is_non_negative_integer vc \<and> is_non_negative_integer vm \<and> is_hex_str vh")
      case False
      then have "\<not> headers_response_ok self_tip start_height count res"
        unfolding headers_response_ok_iff f
        by (auto simp: is_non_negative_integer_def)
      moreover from False have "check_block_headers self_tip start_height count res = Inl RequestCorrupted"
        unfolding check_block_headers_def assert_dict_contains_field_cases f
        by (auto simp: assert_non_negative_integer_def assert_hex_str_def)
      ultimately show ?thesis by simp
    next
      case True
      then obtain c m h where v: "vc = JInt c" "0 \<le> c" "vm = JInt m" "0 \<le> m" "vh = JStr h"
        "even (length h)"
        unfolding is_non_negative_integer_iff is_hex_str_iff by blast
      from True show ?thesis
        unfolding check_block_headers_def assert_dict_contains_field_cases f
          headers_response_ok_iff
        by (simp add: v assert_non_negative_integer_def assert_hex_str_def int_of_def str_of_def
            length_bfh even_len [OF v(6)] HEADER_SIZE_def MAX_NUM_HEADERS_PER_REQUEST_def)
    qed
  qed
qed


text \<open>
  C2. For a request of \<open>count\<close> headers from \<open>start_height\<close> with \<open>0 < count \<le> 2016\<close>,
  answered by the server with \<open>res\<close>: the method returns headers exactly when \<open>res\<close> is a
  dictionary with the fields \<open>count\<close>, \<open>max\<close> and \<open>hex\<close>, \<open>max\<close> is at least 2016, the
  decoded \<open>hex\<close> has \<open>80 * count\<close> bytes, the count returned is at most the count
  requested, and, when it is smaller, \<open>start_height + count - 1\<close> is not below
  \<open>self.tip\<close>; every other answer raises \<open>RequestCorrupted\<close>. The headers returned are
  as many as the answer's \<open>count\<close> says, each of 80 bytes.
\<close>

theorem block_headers_validated:
  assumes "0 < count" and "count \<le> 2016" and "0 \<le> start_height"
    and "server env (world st) ''blockchain.block.headers'' [JInt start_height, JInt count]
           = (Inr res, w')"
  shows "fst (get_block_headers env st start_height count)
           = (if headers_response_ok (tip st) start_height count res
              then Inr (chunks 80 (bfh (str_of (the (field res ''hex'')))))
              else Inl RequestCorrupted)
         \<and> (fst (get_block_headers env st start_height count) = Inr hs
              \<longrightarrow> headers_response_ok (tip st) start_height count res
                  \<and> int (length hs) = int_of (the (field res ''count''))
                  \<and> list_all (\<lambda>h. length h = 80) hs)
         \<and> (\<not> headers_response_ok (tip st) start_height count res
              \<longrightarrow> fst (get_block_headers env st start_height count) = Inl RequestCorrupted)"
proof -
  have run: "fst (get_block_headers env st start_height count)
           = (if headers_response_ok (tip st) start_height count res
              then Inr (chunks 80 (bfh (str_of (the (field res ''hex'')))))
              else Inl RequestCorrupted)"
    using assms
    by (simp add: get_block_headers_def send_request_def check_block_headers_cases
        MAX_NUM_HEADERS_PER_REQUEST_def)
  have len: "int (length (chunks 80 (bfh (str_of (the (field res ''hex''))))))
               = int_of (the (field res ''count''))
             \<and> list_all (\<lambda>h. length h = 80) (chunks 80 (bfh (str_of (the (field res ''hex'')))))"
    if ok: "headers_response_ok (tip st) start_height count res"
  proof -
    from ok obtain c m h where f: "field res ''count'' = Some (JInt c)"
      "field res ''hex'' = Some (JStr h)" "0 \<le> c" "int (length (bfh h)) = 80 * c"
      unfolding headers_response_ok_iff by blast
    from f(3,4) have "length (bfh h) = 80 * nat c" by linarith
    from length_chunks [OF _ this] f(3) show ?thesis
      by (simp add: f int_of_def str_of_def)
  qed
  from run len show ?thesis by (auto split: if_splits)
qed

lemma is_hex_str_replicate:
  "is_hex_char c \<Longrightarrow> even n \<Longrightarrow> is_hex_str (JStr (replicate n c))"
  by (simp add: is_hex_str_def list_all_iff)

theorem block_headers_validated_witness:
  "fst (get_block_headers scripted_env (fresh_interface [Inr example_headers_response]) 5 1)
     = Inr (chunks 80 (bfh (replicate 160 CHR ''0'')))
   \<and> headers_response_ok 0 5 1 example_headers_response
   \<and> length (chunks 80 (bfh (replicate 160 CHR ''0''))) = 1
   \<and> \<not> headers_response_ok 0 5 1 (JNull :: unit json)
   \<and> fst (get_block_headers scripted_env (fresh_interface [Inr (JNull :: unit json)]) 5 1)
     = Inl RequestCorrupted"
proof -
  let ?st = "fresh_interface [Inr example_headers_response] :: ((error + unit json) list, unit, unit) interface"
  let ?st' = "fresh_interface [Inr JNull] :: ((error + unit json) list, unit, unit) interface"
  have hex0: "is_hex_char CHR ''0''" by (simp add: is_hex_char_def)
  have ok: "headers_response_ok 0 5 1 example_headers_response"
    using is_hex_str_replicate [OF hex0, of 160, where ?'a = unit]
    by (simp add: headers_response_ok_def example_headers_response_def field_def length_bfh)
  have bad: "\<not> headers_response_ok 0 5 1 (JNull :: unit json)"
    by (simp add: headers_response_ok_def field_def)
  have srv: "server scripted_env (world ?st) ''blockchain.block.headers'' [JInt 5, JInt 1]
               = (Inr example_headers_response, [])"
    by (simp add: scripted_env_def fresh_interface_def)
  have srv': "server scripted_env (world ?st') ''blockchain.block.headers'' [JInt 5, JInt 1]
               = (Inr JNull, [])"
    by (simp add: scripted_env_def fresh_interface_def)
  have tip0: "tip ?st = 0" "tip ?st' = 0" by (simp_all add: fresh_interface_def)
  have hx: "str_of (the (field example_headers_response ''hex'')) = replicate 160 CHR ''0''"
    by (simp add: example_headers_response_def field_def str_of_def)
  have cnt: "int_of (the (field example_headers_response ''count'')) = 1"
    by (simp add: example_headers_response_def field_def int_of_def)
  from block_headers_validated [of 1 5 scripted_env ?st example_headers_response "[]"
      "chunks 80 (bfh (replicate 160 CHR ''0''))", OF _ _ _ srv] ok
  have a: "fst (get_block_headers scripted_env ?st 5 1) = Inr (chunks 80 (bfh (replicate 160 CHR ''0'')))"
    and b: "length (chunks 80 (bfh (replicate 160 CHR ''0''))) = 1"
    by (simp_all add: tip0 hx cnt)
  from block_headers_validated [of 1 5 scripted_env ?st' JNull "[]" "[]", OF _ _ _ srv'] bad
  have c: "fst (get_block_headers scripted_env ?st' 5 1) = Inl RequestCorrupted"
    by (simp add: tip0)
  from a b c ok bad show ?thesis by blast
qed

section \<open>get_estimatefee\<close>

text \<open>
  C6, as stated, fails: a successful answer of \<open>-1\<close> (the protocol's own "no estimate")
  is not a non-negative number, yet it does not raise \<open>RequestCorrupted\<close>: it is returned
  as it is.
\<close>

theorem estimatefee_counterexample:
  "\<not> is_non_negative_int_or_float exact_float_ops (JInt (- 1))
   \<and> fst (get_estimatefee exact_float_ops scripted_env (fresh_interface [Inr (JInt (- 1))]) 2)
       = Inr (JInt (- 1))
   \<and> fst (get_estimatefee exact_float_ops scripted_env (fresh_interface [Inr (JInt (- 1))]) 2)
       \<noteq> Inl RequestCorrupted"
  by (simp add: get_estimatefee_def send_request_def scripted_env_def fresh_interface_def
      estimatefee_tolerate_def py_eq_int_def is_non_negative_int_or_float_def)

text \<open>
  C6, amended. For \<open>num_blocks \<ge> 0\<close>: a protocol error whose message contains
  "cannot estimate fee" and an RPC error of code \<open>INTERNAL_ERROR\<close> both give \<open>-1\<close>; every
  other exception of the request (a protocol error with another message, an RPC error
  with another code, an exception of any other class) goes on to the caller; a
  successful answer equal to \<open>-1\<close> is returned unchanged; every other successful answer
  must be a non-negative integer or float, else \<open>RequestCorrupted\<close> is raised; a
  non-negative integer \<open>n\<close> gives \<open>n * COIN\<close> and a non-negative float \<open>f\<close> gives
  \<open>int(f * COIN)\<close>.
\<close>

theorem estimatefee_result:
  assumes "0 \<le> num_blocks"
    and "server env (world st) ''blockchain.estimatefee'' [JInt num_blocks] = (r, w')"
  shows "(r = Inl (ProtocolError code message) \<and> contains_str ''cannot estimate fee'' message
            \<longrightarrow> fst (get_estimatefee fops env st num_blocks) = Inr (JInt (- 1)))
       \<and> (r = Inl (RPCError code message) \<and> code = INTERNAL_ERROR
            \<longrightarrow> fst (get_estimatefee fops env st num_blocks) = Inr (JInt (- 1)))
       \<and> (r = Inl (ProtocolError code message) \<and> \<not> contains_str ''cannot estimate fee'' message
            \<longrightarrow> fst (get_estimatefee fops env st num_blocks) = r)
       \<and> (r = Inl (RPCError code message) \<and> code \<noteq> INTERNAL_ERROR
            \<longrightarrow> fst (get_estimatefee fops env st num_blocks) = r)
       \<and> (r = Inl e \<and> (\<forall>c m. e \<noteq> ProtocolError c m) \<and> (\<forall>c m. e \<noteq> RPCError c m)
            \<longrightarrow> fst (get_estimatefee fops env st num_blocks) = Inl e)
       \<and> (r = Inr res \<and> py_eq_int fops res (- 1)
            \<longrightarrow> fst (get_estimatefee fops env st num_blocks) = Inr res)
       \<and> (r = Inr res \<and> \<not> py_eq_int fops res (- 1) \<and> \<not> is_non_negative_int_or_float fops res
            \<longrightarrow> fst (get_estimatefee fops env st num_blocks) = Inl RequestCorrupted)
       \<and> (r = Inr (JInt n) \<and> 0 \<le> n
            \<longrightarrow> fst (get_estimatefee fops env st num_blocks) = Inr (JInt (n * COIN)))
       \<and> (r = Inr (JFloat f) \<and> float_ge0 fops f \<and> \<not> float_eq_int fops f (- 1)
            \<longrightarrow> fst (get_estimatefee fops env st num_blocks)
                = and_then (float_times_int_truncated fops f COIN) (\<lambda>k. Inr (JInt k)))"
  using assms
  by (cases e)
     (simp_all add: get_estimatefee_def send_request_def estimatefee_tolerate_def py_eq_int_def
        assert_non_negative_int_or_float_def is_non_negative_int_or_float_def
        times_COIN_truncated_def)


lemma scripted_server:
  "server scripted_env (world (fresh_interface (x # xs))) method params = (x, xs)"
  by (simp add: scripted_env_def fresh_interface_def)

theorem estimatefee_result_witness:
  "fst (get_estimatefee exact_float_ops scripted_env
          (fresh_interface [Inl (RPCError INTERNAL_ERROR ''bitcoind request timed out'')]) 2)
     = Inr (JInt (- 1))
   \<and> fst (get_estimatefee exact_float_ops scripted_env
          (fresh_interface [Inl (ProtocolError 1 ''cannot estimate fee'')]) 2)
     = Inr (JInt (- 1))
   \<and> fst (get_estimatefee exact_float_ops scripted_env
          (fresh_interface [Inl (ProtocolError 1 ''busy'')]) 2)
     = Inl (ProtocolError 1 ''busy'')
   \<and> fst (get_estimatefee exact_float_ops scripted_env
          (fresh_interface [Inl (RPCError 2 ''busy'')]) 2)
     = Inl (RPCError 2 ''busy'')
   \<and> fst (get_estimatefee exact_float_ops scripted_env (fresh_interface [Inl RequestTimedOut]) 2)
     = Inl RequestTimedOut
   \<and> fst (get_estimatefee exact_float_ops scripted_env (fresh_interface [Inr (JInt (- 1))]) 2)
     = Inr (JInt (- 1))
   \<and> fst (get_estimatefee exact_float_ops scripted_env (fresh_interface [Inr (JInt (- 5))]) 2)
     = Inl RequestCorrupted
   \<and> fst (get_estimatefee exact_float_ops scripted_env (fresh_interface [Inr (JInt 3)]) 2)
     = Inr (JInt 300000000)
   \<and> fst (get_estimatefee exact_float_ops scripted_env (fresh_interface [Inr (JFloat (1 / 4))]) 2)
     = Inr (JInt 25000000)"
proof -
  have a: "fst (get_estimatefee exact_float_ops scripted_env
          (fresh_interface [Inl (RPCError INTERNAL_ERROR ''bitcoind request timed out'')]) 2)
     = Inr (JInt (- 1))"
    using estimatefee_result [where num_blocks = 2 and env = scripted_env
        and fops = exact_float_ops and st = "fresh_interface [Inl (RPCError INTERNAL_ERROR ''bitcoind request timed out'')]"
        and r = "Inl (RPCError INTERNAL_ERROR ''bitcoind request timed out'')" and w' = "[]" and code = INTERNAL_ERROR and message = "''bitcoind request timed out''",
        OF _ scripted_server]
    by simp
  have b: "fst (get_estimatefee exact_float_ops scripted_env
          (fresh_interface [Inl (ProtocolError 1 ''cannot estimate fee'')]) 2)
     = Inr (JInt (- 1))"
    using estimatefee_result [where num_blocks = 2 and env = scripted_env
        and fops = exact_float_ops and st = "fresh_interface [Inl (ProtocolError 1 ''cannot estimate fee'')]"
        and r = "Inl (ProtocolError 1 ''cannot estimate fee'')" and w' = "[]" and code = 1 and message = "''cannot estimate fee''",
        OF _ scripted_server]
    by simp
  have c: "fst (get_estimatefee exact_float_ops scripted_env
          (fresh_interface [Inl (ProtocolError 1 ''busy'')]) 2)
     = Inl (ProtocolError 1 ''busy'')"
    using estimatefee_result [where num_blocks = 2 and env = scripted_env
        and fops = exact_float_ops and st = "fresh_interface [Inl (ProtocolError 1 ''busy'')]"
        and r = "Inl (ProtocolError 1 ''busy'')" and w' = "[]" and code = 1 and message = "''busy''",
        OF _ scripted_server]
    by simp
  have d: "fst (get_estimatefee exact_float_ops scripted_env
          (fresh_interface [Inl (RPCError 2 ''busy'')]) 2)
     = Inl (RPCError 2 ''busy'')"
    using estimatefee_result [where num_blocks = 2 and env = scripted_env
        and fops = exact_float_ops and st = "fresh_interface [Inl (RPCError 2 ''busy'')]"
        and r = "Inl (RPCError 2 ''busy'')" and w' = "[]" and code = 2 and message = "''busy''",
        OF _ scripted_server]
    by (simp add: INTERNAL_ERROR_def)
  have e: "fst (get_estimatefee exact_float_ops scripted_env (fresh_interface [Inr (JInt (- 1))]) 2)
     = Inr (JInt (- 1))"
    using estimatefee_result [where num_blocks = 2 and env = scripted_env
        and fops = exact_float_ops and st = "fresh_interface [Inr (JInt (- 1))]"
        and r = "Inr (JInt (- 1))" and w' = "[]" and res = "JInt (- 1)",
        OF _ scripted_server]
    by (simp add: py_eq_int_def)
  have f: "fst (get_estimatefee exact_float_ops scripted_env (fresh_interface [Inr (JInt (- 5))]) 2)
     = Inl RequestCorrupted"
    using estimatefee_result [where num_blocks = 2 and env = scripted_env
        and fops = exact_float_ops and st = "fresh_interface [Inr (JInt (- 5))]"
        and r = "Inr (JInt (- 5))" and w' = "[]" and res = "JInt (- 5)",
        OF _ scripted_server]
    by (simp add: py_eq_int_def is_non_negative_int_or_float_def)
  have g: "fst (get_estimatefee exact_float_ops scripted_env (fresh_interface [Inr (JInt 3)]) 2)
     = Inr (JInt 300000000)"
    using estimatefee_result [where num_blocks = 2 and env = scripted_env
        and fops = exact_float_ops and st = "fresh_interface [Inr (JInt 3)]"
        and r = "Inr (JInt 3)" and w' = "[]" and n = 3,
        OF _ scripted_server]
    by (simp add: COIN_def)
  have h: "fst (get_estimatefee exact_float_ops scripted_env (fresh_interface [Inr (JFloat (1 / 4))]) 2)
     = Inr (JInt 25000000)"
    using estimatefee_result [where num_blocks = 2 and env = scripted_env
        and fops = exact_float_ops and st = "fresh_interface [Inr (JFloat (1 / 4))]"
        and r = "Inr (JFloat (1 / 4))" and w' = "[]" and f = "1 / 4",
        OF _ scripted_server]
    by (simp add: COIN_def exact_float_ops_def)
  have i: "fst (get_estimatefee exact_float_ops scripted_env (fresh_interface [Inl RequestTimedOut]) 2)
     = Inl RequestTimedOut"
    using estimatefee_result [where num_blocks = 2 and env = scripted_env
        and fops = exact_float_ops and st = "fresh_interface [Inl RequestTimedOut]"
        and r = "Inl RequestTimedOut" and w' = "[]" and e = RequestTimedOut,
        OF _ scripted_server]
    by simp
  from a b c d e f g h i show ?thesis by blast
qed

section \<open>request_chunk_below_max_checkpoint: the in-flight marker\<close>

lemma send_request_frame:
  "send_request env st method params = (r, st') \<Longrightarrow>
     requested_chunks st' = requested_chunks st \<and> blockchain st' = blockchain st
     \<and> tip st' = tip st \<and> headers_cache st' = headers_cache st
     \<and> requests st' = requests st @ [(method, params)]"
  by (auto simp: send_request_def split: prod.splits)

lemma get_block_headers_frame:
  "get_block_headers env st start_height count = (r, st') \<Longrightarrow>
     requested_chunks st' = requested_chunks st \<and> blockchain st' = blockchain st
     \<and> tip st' = tip st \<and> headers_cache st' = headers_cache st"
  by (auto simp: get_block_headers_def split: if_splits prod.splits sum.splits
      dest!: send_request_frame)

text \<open>
  C8. For a block height \<open>height \<le> max_checkpoint\<close>: when the chunk index
  \<open>height // CHUNK_SIZE\<close> is already in \<open>_requested_chunks\<close> the method returns at once,
  with the interface as it was (so no request was sent); otherwise, however the method
  ends (normally, with \<open>RequestCorrupted\<close> after a false \<open>connect_chunk\<close>, or with any
  exception of the fetch), the index is not in \<open>_requested_chunks\<close> afterwards, and
  the set is the one before the call.
\<close>

theorem request_chunk_marker_removed:
  assumes "0 \<le> height" and "height \<le> max_checkpoint env"
  shows "(height div CHUNK_SIZE \<in> requested_chunks st
            \<longrightarrow> request_chunk_below_max_checkpoint env st height = (Inr (), st))
       \<and> (height div CHUNK_SIZE \<notin> requested_chunks st
            \<longrightarrow> height div CHUNK_SIZE \<notin> requested_chunks (snd (request_chunk_below_max_checkpoint env st height))
                \<and> requested_chunks (snd (request_chunk_below_max_checkpoint env st height))
                    = requested_chunks st)"
proof -
  define index where "index = height div CHUNK_SIZE"
  define st1 where "st1 = st\<lparr>requested_chunks := insert index (requested_chunks st)\<rparr>"
  obtain r st2 where g: "get_block_headers env st1 (index * CHUNK_SIZE) CHUNK_SIZE = (r, st2)"
    by (cases "get_block_headers env st1 (index * CHUNK_SIZE) CHUNK_SIZE")
  from get_block_headers_frame [OF g]
  have rc: "requested_chunks st2 = insert index (requested_chunks st)"
    by (simp add: st1_def)
  have "requested_chunks (snd (request_chunk_below_max_checkpoint env st height)) = requested_chunks st"
    if "index \<notin> requested_chunks st"
    using that assms g rc
    unfolding request_chunk_below_max_checkpoint_def index_def [symmetric]
    by (simp add: Let_def st1_def [symmetric] split: sum.splits option.splits prod.splits)
  moreover have "request_chunk_below_max_checkpoint env st height = (Inr (), st)"
    if "index \<in> requested_chunks st"
    using that assms
    unfolding request_chunk_below_max_checkpoint_def index_def [symmetric]
    by (simp add: Let_def)
  ultimately show ?thesis
    unfolding index_def by simp
qed


theorem request_chunk_marker_removed_witness:
  "request_chunk_below_max_checkpoint scripted_env
      ((fresh_interface [] :: ((error + unit json) list, unit, unit) interface)\<lparr>requested_chunks := {0}\<rparr>) 0
     = (Inr (), (fresh_interface [])\<lparr>requested_chunks := {0}\<rparr>)
   \<and> fst (request_chunk_below_max_checkpoint scripted_env
            (fresh_interface [] :: ((error + unit json) list, unit, unit) interface) 0)
     = Inl (OtherError ''connection lost'')
   \<and> requests (snd (request_chunk_below_max_checkpoint scripted_env
            (fresh_interface [] :: ((error + unit json) list, unit, unit) interface) 0))
     = [(''blockchain.block.headers'', [JInt 0, JInt 2016])]
   \<and> requested_chunks (snd (request_chunk_below_max_checkpoint scripted_env
            (fresh_interface [] :: ((error + unit json) list, unit, unit) interface) 0))
     = {}"
proof -
  let ?st = "fresh_interface [] :: ((error + unit json) list, unit, unit) interface"
  have mc: "(0::int) \<le> max_checkpoint (scripted_env :: ((error + unit json) list, unit, unit, unit) env)"
    by (simp add: scripted_env_def)
  have in_flight: "0 div CHUNK_SIZE \<in> requested_chunks (?st\<lparr>requested_chunks := {0}\<rparr>)"
    by simp
  have not_in_flight: "0 div CHUNK_SIZE \<notin> requested_chunks ?st"
    by (simp add: fresh_interface_def)
  have run: "fst (request_chunk_below_max_checkpoint scripted_env ?st 0)
               = Inl (OtherError ''connection lost'')
             \<and> requests (snd (request_chunk_below_max_checkpoint scripted_env ?st 0))
               = [(''blockchain.block.headers'', [JInt 0, JInt 2016])]"
    by (simp add: request_chunk_below_max_checkpoint_def get_block_headers_def send_request_def
        scripted_env_def fresh_interface_def CHUNK_SIZE_def MAX_NUM_HEADERS_PER_REQUEST_def Let_def)
  from request_chunk_marker_removed [of 0 scripted_env "?st\<lparr>requested_chunks := {0}\<rparr>", OF _ mc] in_flight
  have a: "request_chunk_below_max_checkpoint scripted_env (?st\<lparr>requested_chunks := {0}\<rparr>) 0
             = (Inr (), ?st\<lparr>requested_chunks := {0}\<rparr>)"
    by simp
  from request_chunk_marker_removed [of 0 scripted_env ?st, OF _ mc] not_in_flight
  have b: "requested_chunks (snd (request_chunk_below_max_checkpoint scripted_env ?st 0)) = {}"
    by (simp add: fresh_interface_def)
  from a b run show ?thesis by simp
qed

section \<open>The binary search: what holds when it returns\<close>

lemma search_headers_binary_loop_unfold:
  assumes "0 \<le> good" "good < bad"
    and "(if bad - good + 1 \<le> MAX_NUM_HEADERS_PER_REQUEST
          then maybe_warm_headers_cache env st good bad else (Inr (), st)) = (w, st1)"
    and "get_block_header env st1 ((good + bad) div 2) = (r, st2)"
  shows "search_headers_binary_loop env st good bad bad_header =
     (case w of
        Inl e \<Rightarrow> (Inl e, st1)
      | Inr _ \<Rightarrow>
          (case r of
             Inl e \<Rightarrow> (Inl e, st2)
           | Inr header \<Rightarrow>
               (case check_header env (world st2) header of
                  Some chain \<Rightarrow>
                    if (good + bad) div 2 + 1 = bad
                    then (Inr ((good + bad) div 2, bad, bad_header), st2\<lparr>blockchain := Some chain\<rparr>)
                    else search_headers_binary_loop env (st2\<lparr>blockchain := Some chain\<rparr>)
                           ((good + bad) div 2) bad bad_header
                | None \<Rightarrow>
                    if good + 1 = (good + bad) div 2
                    then (Inr (good, (good + bad) div 2, header), st2)
                    else search_headers_binary_loop env st2 good ((good + bad) div 2) header)))"
  by (subst search_headers_binary_loop.simps)
     (simp only: assms Let_def simp_thms if_False if_True prod.case split: sum.split)

lemma search_headers_binary_loop_adjacent:
  "search_headers_binary_loop env st good bad bad_header = (Inr (g, b, h), st') \<Longrightarrow> g + 1 = b"
proof (induction "nat (bad - good)" arbitrary: st good bad bad_header rule: less_induct)
  case less
  show ?case
  proof (cases "0 \<le> good \<and> good < bad")
    case False
    then have "search_headers_binary_loop env st good bad bad_header = (Inl AssertionError, st)"
      by (subst search_headers_binary_loop.simps) simp
    with less.prems show ?thesis by simp
  next
    case True
    define height where "height = (good + bad) div 2"
    obtain w st1 where w: "(if bad - good + 1 \<le> MAX_NUM_HEADERS_PER_REQUEST
          then maybe_warm_headers_cache env st good bad else (Inr (), st)) = (w, st1)"
      by (cases "if bad - good + 1 \<le> MAX_NUM_HEADERS_PER_REQUEST
          then maybe_warm_headers_cache env st good bad else (Inr (), st)")
    obtain r st2 where r: "get_block_header env st1 ((good + bad) div 2) = (r, st2)"
      by (cases "get_block_header env st1 ((good + bad) div 2)")
    from True have t: "0 \<le> good" "good < bad" by simp_all
    note u = search_headers_binary_loop_unfold [OF t w r, of bad_header]
    from less.prems u obtain u0 where w': "w = Inr u0"
      by (cases w) simp_all
    from less.prems u w' obtain header where r': "r = Inr header"
      by (cases r) simp_all
    show ?thesis
    proof (cases "check_header env (world st2) header")
      case None
      show ?thesis
      proof (cases "good + 1 = (good + bad) div 2")
        case True
        have "search_headers_binary_loop env st good bad bad_header
                = (Inr (good, (good + bad) div 2, header), st2)"
          unfolding u by (simp add: w' r' None True)
        with less.prems have "good = g \<and> (good + bad) div 2 = b" by auto
        with True show ?thesis by linarith
      next
        case False
        with less.prems u w' r' None
        have rec: "search_headers_binary_loop env st2 good ((good + bad) div 2) header
                     = (Inr (g, b, h), st')" by simp
        from t have "nat ((good + bad) div 2 - good) < nat (bad - good)" by linarith
        from less.hyps [OF this rec] show ?thesis .
      qed
    next
      case (Some chain)
      show ?thesis
      proof (cases "(good + bad) div 2 + 1 = bad")
        case True
        have "search_headers_binary_loop env st good bad bad_header
                = (Inr ((good + bad) div 2, bad, bad_header), st2\<lparr>blockchain := Some chain\<rparr>)"
          unfolding u by (simp add: w' r' Some True)
        with less.prems have "(good + bad) div 2 = g \<and> bad = b" by auto
        with True show ?thesis by linarith
      next
        case False
        with less.prems u w' r' Some
        have rec: "search_headers_binary_loop env (st2\<lparr>blockchain := Some chain\<rparr>)
                     ((good + bad) div 2) bad bad_header = (Inr (g, b, h), st')" by simp
        from t False have "nat (bad - (good + bad) div 2) < nat (bad - good)" by linarith
        from less.hyps [OF this rec] show ?thesis .
      qed
    qed
  qed
qed

text \<open>
  C1. Whenever \<open>_search_headers_binary\<close> returns a triple \<open>(good, bad, bad_header)\<close>:
  \<open>good + 1 = bad\<close>; \<open>bad_header\<close> does not check against any chain of the store as it
  is at exit; and \<open>self.blockchain\<close> at exit is a chain to which \<open>bad_header\<close> can connect
  with \<open>check_height=False\<close>.
\<close>

theorem search_headers_binary_post:
  assumes "search_headers_binary env st height bad bad_header chain = (Inr (good, bad', bh), st')"
  shows "good + 1 = bad'
       \<and> check_header env (world st') bh = None
       \<and> (\<exists>c. blockchain st' = Some c \<and> chain_can_connect env (world st') c bh)"
proof -
  from assms obtain st1 where
    loop: "search_headers_binary_loop env (st\<lparr>blockchain := chain\<rparr>) height bad bad_header
             = (Inr (good, bad', bh), st1)"
    and rest: "st' = st1" "\<exists>c. blockchain st1 = Some c \<and> chain_can_connect env (world st1) c bh"
      "check_header env (world st1) bh = None"
    unfolding search_headers_binary_def assert_header_does_not_check_against_any_chain_def
    by (auto split: if_splits option.splits sum.splits prod.splits)
  from search_headers_binary_loop_adjacent [OF loop] rest show ?thesis by simp
qed

lemma fork_search_example:
  "search_headers_binary fork_env fork_interface 4 8 (8, [CHR 0x01]) (Some 0)
     = (Inr (5, 6, (6, [CHR 0x01])), fork_interface\<lparr>blockchain := Some 0\<rparr>)"
  by (simp add: search_headers_binary_def assert_header_does_not_check_against_any_chain_def
      search_headers_binary_loop.simps [of _ _ 4 8] search_headers_binary_loop.simps [of _ _ 4 6]
      maybe_warm_headers_cache_def get_block_header_def
      MAX_NUM_HEADERS_PER_REQUEST_def fork_env_def fork_interface_def Let_def upto.simps)

theorem search_headers_binary_post_witness:
  "search_headers_binary fork_env (fork_interface :: (unit, nat, unit) interface) 4 8 (8, [CHR 0x01]) (Some 0)
     = (Inr (5, 6, (6, [CHR 0x01])), fork_interface\<lparr>blockchain := Some 0\<rparr>)
   \<and> (5 :: int) + 1 = 6
   \<and> check_header (fork_env :: (unit, nat, int \<times> bytes, unit) env) () (6, [CHR 0x01]) = None
   \<and> chain_can_connect (fork_env :: (unit, nat, int \<times> bytes, unit) env) () 0 (6, [CHR 0x01])"
  using search_headers_binary_post [OF fork_search_example [where ?'a = unit]] fork_search_example [where ?'a = unit]
  by (simp add: fork_interface_def)

section \<open>ServerAddr: the round trip through its string\<close>

lemma rsplit1_append:
  "sep \<notin> set r \<Longrightarrow> rsplit1 sep (l @ sep # r) = Some (l, r)"
proof -
  assume r: "sep \<notin> set r"
  have rv: "rev (l @ sep # r) = rev r @ sep # rev l" by simp
  from r have tw: "takeWhile (\<lambda>c. c \<noteq> sep) (rev r @ sep # rev l) = rev r"
    by (subst takeWhile_append2) auto
  from r have dw: "dropWhile (\<lambda>c. c \<noteq> sep) (rev r @ sep # rev l) = sep # rev l"
    by (subst dropWhile_append2) auto
  show ?thesis
    unfolding rsplit1_def rv tw dw by simp
qed

lemma rsplit_three:
  "CHR '':'' \<notin> set p \<Longrightarrow> CHR '':'' \<notin> set t \<Longrightarrow>
     rsplit CHR '':'' 2 (x @ '':'' @ p @ '':'' @ t) = rsplit CHR '':'' 0 x @ [p, t]"
proof -
  assume p: "CHR '':'' \<notin> set p" and t: "CHR '':'' \<notin> set t"
  have a: "rsplit1 CHR '':'' ((x @ '':'' @ p) @ CHR '':'' # t) = Some (x @ '':'' @ p, t)"
    using t by (rule rsplit1_append)
  have b: "rsplit1 CHR '':'' (x @ CHR '':'' # p) = Some (x, p)"
    using p by (rule rsplit1_append)
  have two: "(2::nat) = Suc (Suc 0)" by simp
  from a b show ?thesis unfolding two by simp
qed

lemma digits_no_colon: "CHR '':'' \<notin> set (digits n)"
proof (induction n rule: digits.induct)
  case (1 n)
  have d: "digit_char k \<noteq> CHR '':''" if "k < 10" for k
  proof -
    from that have "48 + k < 58" by simp
    then have oc: "of_char (char_of (48 + k) :: char) = (48 + k :: nat)" by simp
    show ?thesis
    proof
      assume "digit_char k = CHR '':''"
      then have "of_char (char_of (48 + k) :: char) = (of_char CHR '':'' :: nat)"
        by (simp add: digit_char_def)
      with oc that show False by simp
    qed
  qed
  show ?case
  proof (cases "n < 10")
    case True
    with d [of n] show ?thesis by (subst digits.simps) auto
  next
    case False
    with 1 have "CHR '':'' \<notin> set (digits (n div 10))" by simp
    moreover have "digit_char (n mod 10) \<noteq> CHR '':''" by (rule d) simp
    ultimately show ?thesis using False by (subst digits.simps) auto
  qed
qed

lemma str_int_no_colon: "CHR '':'' \<notin> set (str_int i)"
  by (simp add: str_int_def digits_no_colon)


lemma strip_brackets: "py_slice (''['' @ h @ '']'') 1 (- 1) = h"
  by (simp add: py_slice_def norm_index_def Let_def)

lemma ServerAddr_Inr:
  assumes "ServerAddr lib host_arg port_arg protocol_arg = Inr addr"
  obtains h x n where "classify_host lib h = Inr x" "validate_port lib port_arg = Inr n"
    "protocol addr \<in> KNOWN_NETWORK_PROTOCOLS"
    "addr = \<lparr>host = host_str lib x, port = n, protocol = protocol addr,
            net_addr_str = net_address_str lib \<lparr>na_host = x, na_port = n\<rparr>\<rparr>"
proof -
  define host1 where "host1 = (if hd host_arg = CHR ''['' \<and> last host_arg = CHR '']''
                     then py_slice host_arg 1 (- 1) else host_arg)"
  from assms obtain na where na: "NetAddress lib host1 port_arg = Inr na"
    unfolding ServerAddr_def Let_def host1_def [symmetric]
    by (auto split: if_splits sum.splits)
  then obtain x n where x: "classify_host lib host1 = Inr x" and n: "validate_port lib port_arg = Inr n"
    and nax: "na = \<lparr>na_host = x, na_port = n\<rparr>"
    unfolding NetAddress_def and_then_def by (auto split: sum.splits)
  from assms na have "protocol addr \<in> KNOWN_NETWORK_PROTOCOLS"
    and "addr = \<lparr>host = host_str lib x, port = n, protocol = protocol addr,
            net_addr_str = net_address_str lib \<lparr>na_host = x, na_port = n\<rparr>\<rparr>"
    unfolding ServerAddr_def Let_def host1_def [symmetric]
    by (auto simp: nax split: if_splits)
  with x n that show thesis by blast
qed

text \<open>
  C7. For every \<open>ServerAddr\<close> value \<open>addr\<close> that the constructor makes (from any host,
  bracketed or not, any port given as an integer or a string, and a protocol in
  \<open>{t, s}\<close> or left out), \<open>ServerAddr.from_str(str(addr))\<close> succeeds and is equal to
  \<open>addr\<close>, provided the library behind \<open>NetAddress\<close> keeps its laws.
\<close>

theorem from_str_round_trip:
  assumes "net_lib_laws lib"
    and "ServerAddr lib host_arg port_arg protocol_arg = Inr addr"
  shows "\<exists>addr'. from_str lib (server_addr_str addr) = Inr addr'
           \<and> server_addr_eq addr' (ServerAddrObj addr :: 'f py_obj)
           \<and> host addr' = host addr \<and> port addr' = port addr \<and> protocol addr' = protocol addr"
proof -
  from assms(2) obtain h x n where x: "classify_host lib h = Inr x"
    and n: "validate_port lib port_arg = Inr n"
    and p: "protocol addr \<in> KNOWN_NETWORK_PROTOCOLS"
    and addr: "addr = \<lparr>host = host_str lib x, port = n, protocol = protocol addr,
            net_addr_str = net_address_str lib \<lparr>na_host = x, na_port = n\<rparr>\<rparr>"
    by (rule ServerAddr_Inr)
  define hs where "hs = host_str lib x"
  define X where "X = (if is_ipv6 lib x then ''['' @ hs @ '']'' else hs)"
  define P where "P = protocol addr"
  from assms(1) x obtain x' where x': "classify_host lib hs = Inr x'" "host_str lib x' = hs"
    unfolding net_lib_laws_def hs_def by blast
  from assms(1) n have n': "validate_port lib (PortStr (str_int n)) = Inr n"
    unfolding net_lib_laws_def by blast
  have plain: "hs \<noteq> [] \<and> \<not> (hd hs = CHR ''['' \<and> last hs = CHR '']'')" if "\<not> is_ipv6 lib x"
    using assms(1) x that unfolding net_lib_laws_def hs_def by blast
  from p have Pc: "CHR '':'' \<notin> set P"
    by (auto simp: KNOWN_NETWORK_PROTOCOLS_def P_def)
  have str: "server_addr_str addr = X @ '':'' @ str_int n @ '':'' @ P"
    by (subst addr) (simp add: server_addr_str_def net_address_str_def X_def hs_def P_def)
  have split: "rsplit CHR '':'' 2 (server_addr_str addr) = [X, str_int n, P]"
    unfolding str using rsplit_three [OF str_int_no_colon [of n] Pc, of X] by simp
  have X_ne: "X \<noteq> []" using plain by (simp add: X_def)
  have strip: "(if hd X = CHR ''['' \<and> last X = CHR '']'' then py_slice X 1 (- 1) else X) = hs"
  proof (cases "is_ipv6 lib x")
    case True
    then have "X = ''['' @ hs @ '']''" by (simp add: X_def)
    then show ?thesis using strip_brackets [of hs] by simp
  next
    case False
    from plain [OF False] show ?thesis by (auto simp: X_def False)
  qed
  have na: "NetAddress lib hs (PortStr (str_int n)) = Inr \<lparr>na_host = x', na_port = n\<rparr>"
    by (simp add: NetAddress_def x' n')
  define addr' where "addr' = \<lparr>host = hs, port = n, protocol = P,
      net_addr_str = net_address_str lib \<lparr>na_host = x', na_port = n\<rparr>\<rparr>"
  have "from_str lib (server_addr_str addr) = Inr addr'"
    unfolding from_str_def split
    using X_ne p
    by (simp add: ServerAddr_def strip na x' P_def [symmetric] addr'_def)
  moreover have "host addr' = host addr \<and> port addr' = port addr \<and> protocol addr' = protocol addr"
    by (subst (1 2 3) addr) (simp add: addr'_def hs_def P_def)
  ultimately show ?thesis by (simp add: server_addr_eq_def)
qed

lemma digit_char_eq: "d < 10 \<Longrightarrow> of_char c = 48 + d \<Longrightarrow> digit_char d = c"
proof -
  assume "of_char c = 48 + d"
  then have "char_of (48 + d) = (char_of (of_char c :: nat) :: char)" by simp
  then show ?thesis by (simp add: digit_char_def)
qed

lemma digit_chars:
  "digit_char 0 = CHR ''0''" "digit_char 2 = CHR ''2''" "digit_char 5 = CHR ''5''"
  by (rule digit_char_eq; simp)+

lemma digits_5: "digits 5 = [digit_char 5]"
  by (subst digits.simps) simp

lemma digits_50: "digits 50 = digits 5 @ [digit_char 0]"
  by (subst digits.simps) simp

lemma digits_500: "digits 500 = digits 50 @ [digit_char 0]"
  by (subst digits.simps) simp

lemma digits_5000: "digits 5000 = digits 500 @ [digit_char 0]"
  by (subst digits.simps) simp

lemma digits_50002: "digits 50002 = digits 5000 @ [digit_char 2]"
  by (subst digits.simps) simp

lemma str_int_example: "str_int 50002 = ''50002''"
  by (simp add: str_int_def digits_5 digits_50 digits_500 digits_5000 digits_50002 digit_chars)

lemma digit_char_value: "d < 10 \<Longrightarrow> of_char (digit_char d) = 48 + d"
  by (simp add: digit_char_def)

lemma digits_nonempty: "digits n \<noteq> []"
  by (subst digits.simps) simp

lemma digits_all_digit: "list_all is_digit_char (digits n)"
proof (induction n rule: digits.induct)
  case (1 n)
  show ?case
  proof (cases "n < 10")
    case True
    then show ?thesis
      by (subst digits.simps) (simp add: is_digit_char_def digit_char_value)
  next
    case False
    with 1 have "list_all is_digit_char (digits (n div 10))" by simp
    with False show ?thesis
      by (subst digits.simps) (simp add: is_digit_char_def digit_char_value)
  qed
qed

lemma parse_digits_digits: "parse_digits (digits n) = n"
proof (induction n rule: digits.induct)
  case (1 n)
  show ?case
  proof (cases "n < 10")
    case True
    then show ?thesis
      by (subst digits.simps) (simp add: parse_digits_def digit_char_value)
  next
    case False
    with 1 have "parse_digits (digits (n div 10)) = n div 10" by simp
    with False show ?thesis
      by (subst digits.simps) (simp add: parse_digits_def digit_char_value)
  qed
qed

lemma example_net_lib_laws: "net_lib_laws example_net_lib"
proof -
  have colon: "\<not> is_hostname_char CHR '':''" and bracket: "\<not> is_hostname_char CHR ''[''"
    by (simp_all add: is_hostname_char_def)
  have a: "\<exists>x'. classify_host example_net_lib (host_str example_net_lib x) = Inr x'
           \<and> host_str example_net_lib x' = host_str example_net_lib x"
    if "classify_host example_net_lib h = Inr x" for h x
    using that colon by (cases x) (auto simp: example_net_lib_def split: if_splits)
  have b: "host_str example_net_lib x \<noteq> []
           \<and> \<not> (hd (host_str example_net_lib x) = CHR ''[''
                \<and> last (host_str example_net_lib x) = CHR '']'')"
    if "classify_host example_net_lib h = Inr x" "\<not> is_ipv6 example_net_lib x" for h x
  proof -
    from that obtain h' where "x = HostName h'" "h' \<noteq> []" "list_all is_hostname_char h'"
      by (cases x) (auto simp: example_net_lib_def split: if_splits)
    then show ?thesis using bracket
      by (cases h') (auto simp: example_net_lib_def)
  qed
  have c: "validate_port example_net_lib (PortStr (str_int n)) = Inr n"
    if "validate_port example_net_lib p = Inr n" for p n
  proof -
    from that have "0 < n \<and> n \<le> 65535"
      by (cases p) (auto simp: example_net_lib_def split: if_splits)
    then have "\<not> n < 0" "0 < nat n" "nat n \<le> 65535" "int (nat n) = n" by linarith+
    then show ?thesis
      by (simp add: example_net_lib_def str_int_def digits_nonempty digits_all_digit
          parse_digits_digits)
  qed
  show ?thesis unfolding net_lib_laws_def using a b c by blast
qed

theorem from_str_round_trip_witness:
  "net_lib_laws example_net_lib
   \<and> ServerAddr example_net_lib ''[0:0:0:0:0:0:0:1]'' (PortInt 50002) None
       = Inr \<lparr>host = ''::1'', port = 50002, protocol = ''s'', net_addr_str = ''[::1]:50002''\<rparr>
   \<and> server_addr_str \<lparr>host = ''::1'', port = 50002, protocol = ''s'', net_addr_str = ''[::1]:50002''\<rparr>
       = ''[::1]:50002:s''
   \<and> (\<exists>addr'. from_str example_net_lib ''[::1]:50002:s'' = Inr addr'
         \<and> server_addr_eq addr'
              (ServerAddrObj \<lparr>host = ''::1'', port = 50002, protocol = ''s'',
                             net_addr_str = ''[::1]:50002''\<rparr> :: unit py_obj))"
proof -
  let ?a = "\<lparr>host = ''::1'', port = 50002, protocol = ''s'', net_addr_str = ''[::1]:50002''\<rparr>"
  have init: "ServerAddr example_net_lib ''[0:0:0:0:0:0:0:1]'' (PortInt 50002) None = Inr ?a"
    by (simp add: ServerAddr_def NetAddress_def example_net_lib_def py_slice_def norm_index_def
        is_hostname_char_def net_address_str_def str_int_example KNOWN_NETWORK_PROTOCOLS_def Let_def)
  have str: "server_addr_str ?a = ''[::1]:50002:s''"
    by (simp add: server_addr_str_def)
  from from_str_round_trip [OF example_net_lib_laws init, where ?'f = unit]
  obtain addr' where r: "from_str example_net_lib (server_addr_str ?a) = Inr addr'"
    and e: "server_addr_eq addr' (ServerAddrObj ?a :: unit py_obj)"
    by (elim exE conjE)
  from r have r': "from_str example_net_lib ''[::1]:50002:s'' = Inr addr'"
    by (simp only: str)
  from r' e have ex: "\<exists>addr'. from_str example_net_lib ''[::1]:50002:s'' = Inr addr'
         \<and> server_addr_eq addr' (ServerAddrObj ?a :: unit py_obj)"
    by (intro exI [of _ addr'] conjI)
  show ?thesis
    by (intro conjI) (rule example_net_lib_laws init str ex)+
qed

end
